theory Spec2Isabelle
  imports Main "HOL-Library.Multiset" "HOL-Library.Word"
begin

section \<open>Data model of \<^verbatim>\<open>src/utils/StreamResolver.ts\<close>\<close>

text \<open>
  A shallow embedding of the \<^verbatim>\<open>StreamResolver\<close> class. JavaScript numbers are
  modelled as \<open>int\<close> (heights, byte sizes and TTLs are whole numbers; \<^verbatim>\<open>NaN\<close> and
  fractions are outside the model). A JavaScript string is the list of its UTF-16 code
  units, each a 16-bit word: \<^verbatim>\<open>substring\<close>, \<^verbatim>\<open>split\<close>, \<^verbatim>\<open>trim\<close> and a regular
  expression without the \<^verbatim>\<open>u\<close> flag all work on code units. \<open>ascii\<close> turns an ASCII
  literal into such a string. A thrown value and a per-result \<^verbatim>\<open>error\<close> marker are
  values of \<open>js_error\<close>; an optional field is an \<open>option\<close>.
\<close>

type_synonym jstring = "16 word list"

definition ascii :: "string \<Rightarrow> jstring" where
  "ascii s = map of_char s"

text \<open>
  Modelled from the spec: \<^verbatim>\<open>ContentType\<close> is declared by the addon SDK, not by the
  sources; the spec calls it a closed enumeration (movie, series, ...). The resolver only
  tells \<^verbatim>\<open>'movie'\<close> from the rest.
\<close>

datatype content_type = Movie | Series | Channel | Tv

text \<open>A thrown value, or the \<^verbatim>\<open>error\<close> marker of a URL Result (declared \<^verbatim>\<open>unknown\<close>).\<close>

datatype js_error = JsError string

text \<open>
  Modelled from the spec: the \<^verbatim>\<open>Format\<close> enumeration of \<^verbatim>\<open>../types\<close> is not among
  the sources; the resolver only compares a format with \<^verbatim>\<open>Format.mp4\<close>.
\<close>

datatype format = Mp4 | OtherFormat

text \<open>
  Modelled from the spec: \<^verbatim>\<open>UrlResult\<close> and its \<^verbatim>\<open>Meta\<close> are declared in
  \<^verbatim>\<open>../types\<close>, which is not among the sources. The records have the fields the
  resolver reads, with the names it reads them under (so the per-result TTL is a field of
  the result, \<^verbatim>\<open>urlResult.ttl\<close>); of a \<^verbatim>\<open>URL\<close> it reads \<^verbatim>\<open>protocol\<close> and
  \<^verbatim>\<open>href\<close>. \<^verbatim>\<open>isExternal\<close> is tested for truth only, so a missing value is \<open>False\<close>.
\<close>

record url =
  protocol :: jstring
  href :: jstring

record meta =
  title :: "jstring option"
  height :: "int option"
  bytes :: "int option"
  countryCodes :: "jstring list option"
  sourceId :: "jstring option"
  sourceLabel :: "jstring option"

record url_result =
  url :: url
  label :: jstring
  meta :: "meta option"
  isExternal :: bool
  format :: format
  requestHeaders :: "(jstring \<times> jstring) list option"
  error :: "js_error option"
  ytId :: "jstring option"
  ttl :: "int option"

text \<open>
  Modelled from the spec: the two feature toggles read by \<^verbatim>\<open>showErrors\<close> and
  \<^verbatim>\<open>showExternalUrls\<close> of \<^verbatim>\<open>./config\<close>, which is not among the sources.
\<close>

record config =
  showErrorsOption :: bool
  showExternalUrlsOption :: bool

definition showErrors :: "config \<Rightarrow> bool" where
  "showErrors c = showErrorsOption c"

definition showExternalUrls :: "config \<Rightarrow> bool" where
  "showExternalUrls c = showExternalUrlsOption c"

text \<open>
  Modelled from the spec: of the \<^verbatim>\<open>Context\<close> of \<^verbatim>\<open>../types\<close> the resolver reads
  \<^verbatim>\<open>hostUrl\<close> and \<^verbatim>\<open>config\<close>.
\<close>

record context_t =
  hostUrl :: url
  config :: config

text \<open>
  Modelled from the spec: a \<^verbatim>\<open>Source\<close> of \<^verbatim>\<open>../source\<close>, which is not among the
  sources: its descriptors \<^verbatim>\<open>id\<close>, \<^verbatim>\<open>label\<close>, \<^verbatim>\<open>baseUrl\<close>,
  \<^verbatim>\<open>contentTypes\<close> and its \<^verbatim>\<open>handle\<close> behaviour, which either throws (\<open>Inl\<close>) or
  returns candidate records \<^verbatim>\<open>{url, meta?}\<close>.
\<close>

record source =
  sid :: jstring
  slabel :: jstring
  baseUrl :: jstring
  contentTypes :: "content_type list"
  handle :: "context_t \<Rightarrow> content_type \<Rightarrow> string \<Rightarrow> js_error + (url \<times> meta option) list"

text \<open>
  The collaborators the resolver calls and that are not part of the sources: the extractor
  registry, \<^verbatim>\<open>envGetAppName\<close>, \<^verbatim>\<open>logErrorAndReturnNiceString\<close>,
  \<^verbatim>\<open>flagFromCountryCode\<close>, \<^verbatim>\<open>bytes.format\<close> with a blank as unit separator, and the
  built-ins \<^verbatim>\<open>String.prototype.localeCompare\<close> and \<^verbatim>\<open>String.prototype.toUpperCase\<close>
  (collation and case mapping of the whole of Unicode). They are parameters of the model.

  So is the order in which handlers that run concurrently finish: the resolver does not
  decide it. \<open>completionOrder\<close> is a list of picks, read by \<open>completion_order\<close> below.
\<close>

record collab =
  extractorHandle :: "context_t \<Rightarrow> url \<Rightarrow> meta \<Rightarrow> js_error + url_result list"
  envGetAppName :: jstring
  logErrorAndReturnNiceString :: "context_t \<Rightarrow> jstring \<Rightarrow> js_error \<Rightarrow> jstring"
  flagFromCountryCode :: "jstring \<Rightarrow> jstring"
  bytesFormat :: "int \<Rightarrow> jstring"
  localeCompare :: "jstring \<Rightarrow> jstring \<Rightarrow> int"
  toUpperCase :: "jstring \<Rightarrow> jstring"
  completionOrder :: "nat list"

text \<open>
  Modelled from the spec: a stream entry of the response (the SDK's \<^verbatim>\<open>Stream\<close> with
  the two fields \<^verbatim>\<open>ExtendedStream\<close> adds), with the fields the resolver writes. A field
  the code leaves out is \<open>None\<close>; \<^verbatim>\<open>notWebReady\<close> is only ever written as
  \<^verbatim>\<open>true\<close>, so a missing one is \<open>False\<close>.
\<close>

record behavior_hints =
  bingeGroup :: jstring
  notWebReady :: bool
  proxyHeaders :: "(jstring \<times> jstring) list option"
  videoSize :: "int option"
  filename :: jstring

record stream =
  st_url :: "jstring option"
  st_externalUrl :: "jstring option"
  st_ytId :: "jstring option"
  st_name :: jstring
  st_title :: jstring
  st_behaviorHints :: "behavior_hints option"
  st_type :: "jstring option"
  st_quality :: "jstring option"
  st_resolution :: "jstring option"

record resolve_response =
  streams :: "stream list"
  resp_ttl :: "int option"

text \<open>
  The mutable locals of one \<^verbatim>\<open>resolve\<close> call. \<open>queried\<close> is a trace: the sources
  whose \<^verbatim>\<open>handle\<close> was called, in call order (the log line ``Procesando fuente'' of
  \<^verbatim>\<open>handleSource\<close> is written at the same place).
\<close>

record rstate =
  allUrlResults :: "url_result list"
  errorStreams :: "stream list"
  sourceErrorCount :: nat
  queried :: "source list"

section \<open>Strings\<close>

text \<open>
  The glyphs of the source as code units: the link (U+1F517, a surrogate pair), the warning
  sign followed by the variation selector (U+26A0, U+FE0F), the hourglass (U+23F3) and the
  disk (U+1F4BE, a surrogate pair).
\<close>

definition glyph_link :: jstring where
  "glyph_link = [0xD83D, 0xDD17]"

definition glyph_warning :: jstring where
  "glyph_warning = [0x26A0, 0xFE0F]"

definition glyph_hourglass :: jstring where
  "glyph_hourglass = [0x23F3]"

definition glyph_disk :: jstring where
  "glyph_disk = [0xD83D, 0xDCBE]"

definition newline :: "16 word" where
  "newline = 10"

definition lparen :: "16 word" where
  "lparen = 40"

text \<open>\<^verbatim>\<open>a || b\<close> on strings: the empty string and \<^verbatim>\<open>undefined\<close> are falsy.\<close>

definition or_string :: "jstring option \<Rightarrow> jstring \<Rightarrow> jstring" where
  "or_string a b = (case a of None \<Rightarrow> b | Some s \<Rightarrow> if s = [] then b else s)"

text \<open>\<^verbatim>\<open>lines.join('\n')\<close>.\<close>

fun join_lines :: "jstring list \<Rightarrow> jstring" where
  "join_lines [] = []"
| "join_lines [l] = l"
| "join_lines (l # ls) = l @ newline # join_lines ls"

text \<open>\<^verbatim>\<open>s.split('\n')[0]\<close>: the text before the first line break.\<close>

definition first_line :: "jstring \<Rightarrow> jstring" where
  "first_line s = takeWhile (\<lambda>c. c \<noteq> newline) s"

text \<open>The code units the class \<^verbatim>\<open>[a-zA-Z0-9]\<close> matches.\<close>

definition is_alnum :: "16 word \<Rightarrow> bool" where
  "is_alnum n = ((48 \<le> n \<and> n \<le> 57) \<or> (65 \<le> n \<and> n \<le> 90) \<or> (97 \<le> n \<and> n \<le> 122))"

text \<open>
  The code units \<^verbatim>\<open>trim\<close> strips: the white space and the line terminators of the
  language (tab, line feed, vertical tab, form feed, carriage return, blank, no-break space,
  U+1680, U+2000 to U+200A, U+2028, U+2029, U+202F, U+205F, U+3000 and U+FEFF).
\<close>

definition is_space :: "16 word \<Rightarrow> bool" where
  "is_space n = ((9 \<le> n \<and> n \<le> 13) \<or> n = 32 \<or> n = 160 \<or> n = 5760
     \<or> (8192 \<le> n \<and> n \<le> 8202) \<or> n = 8232 \<or> n = 8233 \<or> n = 8239 \<or> n = 8287
     \<or> n = 12288 \<or> n = 65279)"

definition trim :: "jstring \<Rightarrow> jstring" where
  "trim s = rev (dropWhile is_space (rev (dropWhile is_space s)))"

fun strip_prefix :: "jstring \<Rightarrow> jstring \<Rightarrow> jstring option" where
  "strip_prefix [] s = Some s"
| "strip_prefix (p # ps) [] = None"
| "strip_prefix (p # ps) (c # cs) = (if p = c then strip_prefix ps cs else None)"

text \<open>
  \<^verbatim>\<open>line.match(/LINK ([^(]+)/)\<close>, where LINK is the link glyph: the leftmost place
  where the glyph, a blank and at least one code unit other than an opening parenthesis
  follow each other; the result is the capture group, the longest run without a
  parenthesis.
\<close>

fun match_source_name :: "jstring \<Rightarrow> jstring option" where
  "match_source_name [] = None"
| "match_source_name (c # cs) =
     (case strip_prefix (glyph_link @ ascii '' '') (c # cs) of
        None \<Rightarrow> match_source_name cs
      | Some rest \<Rightarrow>
          (if takeWhile (\<lambda>x. x \<noteq> lparen) rest \<noteq> []
           then Some (takeWhile (\<lambda>x. x \<noteq> lparen) rest)
           else match_source_name cs))"

text \<open>\<^verbatim>\<open>quality.replace('p', 'P')\<close>: the first \<^verbatim>\<open>p\<close> only.\<close>

fun replace_first_p :: "jstring \<Rightarrow> jstring" where
  "replace_first_p [] = []"
| "replace_first_p (c # cs) = (if c = 112 then 80 # cs else c # replace_first_p cs)"

section \<open>Sorting\<close>

text \<open>
  \<^verbatim>\<open>Array.prototype.sort\<close> with a comparison function. The language guarantees a stable
  sort when the comparison function is consistent and leaves the order open otherwise;
  the model is the stable insertion sort that places each element, in array order, in front
  of the first element it compares below.
\<close>

fun insert_sorted :: "('a \<Rightarrow> 'a \<Rightarrow> int) \<Rightarrow> 'a \<Rightarrow> 'a list \<Rightarrow> 'a list" where
  "insert_sorted cmp x [] = [x]"
| "insert_sorted cmp x (y # ys) =
     (if cmp x y < 0 then x # y # ys else y # insert_sorted cmp x ys)"

definition js_sort :: "('a \<Rightarrow> 'a \<Rightarrow> int) \<Rightarrow> 'a list \<Rightarrow> 'a list" where
  "js_sort cmp xs = foldl (\<lambda>acc x. insert_sorted cmp x acc) [] xs"

text \<open>\<^verbatim>\<open>Array.prototype.indexOf\<close>: \<open>-1\<close> when the element is absent.\<close>

fun indexOf :: "'a list \<Rightarrow> 'a \<Rightarrow> int" where
  "indexOf [] x = -1"
| "indexOf (y # ys) x =
     (if y = x then 0 else (let r = indexOf ys x in if r < 0 then -1 else r + 1))"

section \<open>Formatting of stream entries\<close>

text \<open>\<^verbatim>\<open>urlResult.meta?.field\<close>.\<close>

definition meta_get :: "(meta \<Rightarrow> 'a option) \<Rightarrow> url_result \<Rightarrow> 'a option" where
  "meta_get field r = (case meta r of None \<Rightarrow> None | Some m \<Rightarrow> field m)"

text \<open>Truthiness of an optional number: \<^verbatim>\<open>undefined\<close> and \<^verbatim>\<open>0\<close> are falsy.\<close>

definition truthy_number :: "int option \<Rightarrow> bool" where
  "truthy_number n = (case n of None \<Rightarrow> False | Some k \<Rightarrow> k \<noteq> 0)"

definition mapHeightToQualityLabel :: "int option \<Rightarrow> jstring option" where
  "mapHeightToQualityLabel h =
     (case h of
        None \<Rightarrow> None
      | Some hgt \<Rightarrow> Some (
          if hgt \<ge> 2160 then ascii ''2160p''
          else if hgt \<ge> 1440 then ascii ''1440p''
          else if hgt \<ge> 1080 then ascii ''1080p''
          else if hgt \<ge> 720 then ascii ''720p''
          else if hgt \<ge> 576 then ascii ''576p''
          else if hgt \<ge> 480 then ascii ''480p''
          else if hgt \<ge> 360 then ascii ''360p''
          else if hgt \<ge> 240 then ascii ''240p''
          else ascii ''240p''))"

definition mapQualityToResolutionLabel :: "jstring \<Rightarrow> jstring" where
  "mapQualityToResolutionLabel quality =
     (if quality = ascii ''2160p'' then ascii ''4K''
      else if quality = ascii ''1440p'' then ascii ''QHD''
      else if quality = ascii ''1080p'' then ascii ''FHD''
      else if quality = ascii ''720p'' then ascii ''HD''
      else if quality = ascii ''576p'' then ascii ''SD''
      else if quality = ascii ''480p'' then ascii ''SD''
      else if quality = ascii ''360p'' then ascii ''SD''
      else ascii ''n/a'')"

definition buildName :: "collab \<Rightarrow> context_t \<Rightarrow> url_result \<Rightarrow> jstring" where
  "buildName env ctx urlResult =
     envGetAppName env
     @ concat (map (\<lambda>cc. (ascii '' '') @ flagFromCountryCode env cc)
         (case meta_get countryCodes urlResult of None \<Rightarrow> [] | Some ccs \<Rightarrow> ccs))
     @ (case mapHeightToQualityLabel (meta_get height urlResult) of
          None \<Rightarrow> []
        | Some quality \<Rightarrow> if quality = [] then [] else ascii '' '' @ replace_first_p quality)
     @ ascii '' '' @ glyph_hourglass
     @ (if isExternal urlResult \<and> showExternalUrls (config ctx)
        then ascii '' '' @ glyph_warning @ ascii '' external'' else [])"

definition buildTitle :: "collab \<Rightarrow> context_t \<Rightarrow> url_result \<Rightarrow> jstring" where
  "buildTitle env ctx urlResult =
     join_lines (
       (case meta_get title urlResult of
          None \<Rightarrow> []
        | Some t \<Rightarrow> if t = [] then [] else [t])
       @ [glyph_link @ ascii '' '' @ or_string (Some (label urlResult)) (ascii ''Stream'')
            @ ascii '' from '' @ or_string (meta_get sourceLabel urlResult) (ascii ''Unknown'')]
       @ (case meta_get bytes urlResult of
            None \<Rightarrow> []
          | Some b \<Rightarrow> if b = 0 then [] else [glyph_disk @ ascii '' '' @ bytesFormat env b])
       @ (case error urlResult of
            None \<Rightarrow> []
          | Some e \<Rightarrow>
              [logErrorAndReturnNiceString env ctx
                 (or_string (meta_get sourceId urlResult) []) e]))"

text \<open>
  The source name of the file name: parsed out of the first line of the title, trimmed,
  \<^verbatim>\<open>'Unknown'\<close> when nothing matches or nothing is left.
\<close>

definition parse_source_name :: "jstring \<Rightarrow> jstring" where
  "parse_source_name t =
     (case match_source_name (first_line t) of
        None \<Rightarrow> ascii ''Unknown''
      | Some m \<Rightarrow> if trim m = [] then ascii ''Unknown'' else trim m)"

definition first_country_code :: "url_result \<Rightarrow> jstring" where
  "first_country_code urlResult =
     (case meta_get countryCodes urlResult of
        None \<Rightarrow> ascii ''Unknown''
      | Some [] \<Rightarrow> ascii ''Unknown''
      | Some (cc # _) \<Rightarrow> if cc = [] then ascii ''Unknown'' else cc)"

definition size_label :: "collab \<Rightarrow> url_result \<Rightarrow> jstring" where
  "size_label env urlResult =
     (case meta_get bytes urlResult of
        None \<Rightarrow> []
      | Some b \<Rightarrow> if b = 0 then [] else ascii ''['' @ bytesFormat env b @ ascii '']'')"

definition build_filename :: "collab \<Rightarrow> context_t \<Rightarrow> url_result \<Rightarrow> jstring" where
  "build_filename env ctx urlResult =
     (let qualityLabel = mapHeightToQualityLabel (meta_get height urlResult);
          t = buildTitle env ctx urlResult;
          countryCode = first_country_code urlResult;
          sourceName = parse_source_name t;
          cleanSourceName = filter is_alnum sourceName;
          cleanCountryCode = toUpperCase env (take 2 countryCode);
          sizeLabel = size_label env urlResult
      in or_string qualityLabel (ascii ''Unknown'') @ ascii ''.'' @ cleanSourceName @ ascii ''.'' @ cleanCountryCode
         @ (if sizeLabel = [] then [] else ascii ''.'' @ sizeLabel) @ ascii ''.mkv'')"

definition format_stream :: "collab \<Rightarrow> context_t \<Rightarrow> url_result \<Rightarrow> stream" where
  "format_stream env ctx urlResult =
     (let qualityLabel = mapHeightToQualityLabel (meta_get height urlResult);
          has_yt = (case ytId urlResult of None \<Rightarrow> False | Some y \<Rightarrow> y \<noteq> []);
          hints = \<lparr>
            bingeGroup = ascii ''webstreamr-''
              @ (case meta_get sourceId urlResult of None \<Rightarrow> (ascii ''undefined'') | Some s \<Rightarrow> s),
            notWebReady = ((format urlResult \<noteq> Mp4 \<or> protocol (url urlResult) \<noteq> (ascii ''https:''))
              \<or> requestHeaders urlResult \<noteq> None),
            proxyHeaders = requestHeaders urlResult,
            videoSize = (if truthy_number (meta_get bytes urlResult)
              then meta_get bytes urlResult else None),
            filename = build_filename env ctx urlResult \<rparr>
      in \<lparr>
        st_url = (if \<not> has_yt \<and> \<not> isExternal urlResult
           then Some (href (url urlResult)) else None),
        st_externalUrl = (if \<not> has_yt \<and> isExternal urlResult
           then Some (href (url urlResult)) else None),
        st_ytId = (if has_yt then ytId urlResult else None),
        st_name = buildName env ctx urlResult,
        st_title = buildTitle env ctx urlResult,
        st_behaviorHints = Some hints,
        st_type = Some (ascii ''hls''),
        st_quality = (case qualityLabel of None \<Rightarrow> None | Some q \<Rightarrow> if q = [] then None else Some q),
        st_resolution = (case qualityLabel of
           None \<Rightarrow> None
         | Some q \<Rightarrow> if q = [] then None else Some (mapQualityToResolutionLabel q)) \<rparr>)"

text \<open>The entry \<^verbatim>\<open>handleSource\<close> pushes when a source fails and errors are shown.\<close>

definition source_error_stream :: "collab \<Rightarrow> context_t \<Rightarrow> source \<Rightarrow> js_error \<Rightarrow> stream" where
  "source_error_stream env ctx source e = \<lparr>
     st_url = None,
     st_externalUrl = Some (baseUrl source),
     st_ytId = None,
     st_name = envGetAppName env,
     st_title = join_lines [glyph_link @ ascii '' '' @ slabel source,
        logErrorAndReturnNiceString env ctx (sid source) e],
     st_behaviorHints = None,
     st_type = None,
     st_quality = None,
     st_resolution = None \<rparr>"

text \<open>The single entry of the response to a call without sources.\<close>

definition no_sources_stream :: "context_t \<Rightarrow> stream" where
  "no_sources_stream ctx = \<lparr>
     st_url = None,
     st_externalUrl = Some (href (hostUrl ctx)),
     st_ytId = None,
     st_name = ascii ''WebStreamr'',
     st_title = glyph_warning
        @ ascii '' No se encontraron fuentes. Por favor, reconfigure el complemento.'',
     st_behaviorHints = None,
     st_type = None,
     st_quality = None,
     st_resolution = None \<rparr>"

section \<open>Scheduling of the sources\<close>

definition prioritySourceIds :: "jstring list" where
  "prioritySourceIds = [ascii ''embed69'', ascii ''pelisplus4k'', ascii ''cinehdplus'', ascii ''xupalace'']"

definition prioritizedSources :: "source list \<Rightarrow> source list" where
  "prioritizedSources sources =
     js_sort (\<lambda>a b. indexOf prioritySourceIds (sid a) - indexOf prioritySourceIds (sid b))
       (filter (\<lambda>s. sid s \<in> set prioritySourceIds) sources)"

definition otherSources :: "source list \<Rightarrow> source list" where
  "otherSources sources = filter (\<lambda>s. sid s \<notin> set prioritySourceIds) sources"

text \<open>
  The meta handed to the extractor: the candidate's own, with the source's label and id
  as defaults.
\<close>

definition candidate_meta :: "source \<Rightarrow> meta option \<Rightarrow> meta" where
  "candidate_meta source m =
     (let base = (case m of
            None \<Rightarrow> \<lparr> title = None, height = None, bytes = None, countryCodes = None,
                       sourceId = None, sourceLabel = None \<rparr>
          | Some x \<Rightarrow> x)
      in base \<lparr> sourceLabel := Some (or_string (sourceLabel base) (slabel source)),
                sourceId := Some (or_string (sourceId base) (sid source)) \<rparr>)"

text \<open>One candidate through the extractor registry; a failure counts as no result.\<close>

definition extract_candidate ::
  "collab \<Rightarrow> context_t \<Rightarrow> source \<Rightarrow> url \<times> meta option \<Rightarrow> url_result list" where
  "extract_candidate env ctx source c =
     (case extractorHandle env ctx (fst c) (candidate_meta source (snd c)) of
        Inl e \<Rightarrow> []
      | Inr urlResults \<Rightarrow> urlResults)"

definition handleSource ::
  "collab \<Rightarrow> context_t \<Rightarrow> content_type \<Rightarrow> string \<Rightarrow> rstate \<Rightarrow> source \<Rightarrow> rstate" where
  "handleSource env ctx ty i st source =
     (if ty \<notin> set (contentTypes source) then st
      else
        (case handle source ctx ty i of
           Inr sourceResults \<Rightarrow>
             st \<lparr> allUrlResults := allUrlResults st
                     @ concat (map (extract_candidate env ctx source) sourceResults),
                  queried := queried st @ [source] \<rparr>
         | Inl e \<Rightarrow>
             st \<lparr> sourceErrorCount := sourceErrorCount st + 1,
                  errorStreams :=
                    (if showErrors (config ctx)
                     then errorStreams st @ [source_error_stream env ctx source e]
                     else errorStreams st),
                  queried := queried st @ [source] \<rparr>))"

text \<open>\<^verbatim>\<open>allUrlResults.filter(r => !r.error).length\<close>.\<close>

definition count_ok :: "url_result list \<Rightarrow> int" where
  "count_ok rs = int (length (filter (\<lambda>r. error r = None) rs))"

text \<open>The sequential loop over the prioritized sources, with its two early exits.\<close>

fun phase1 ::
  "collab \<Rightarrow> context_t \<Rightarrow> content_type \<Rightarrow> string \<Rightarrow> rstate \<Rightarrow> source list \<Rightarrow> rstate" where
  "phase1 env ctx ty i st [] = st"
| "phase1 env ctx ty i st (source # rest) =
     (let resultsBefore = count_ok (allUrlResults st);
          st' = handleSource env ctx ty i st source;
          resultsAfter = count_ok (allUrlResults st');
          resultsFromThisSource = resultsAfter - resultsBefore
      in if ty = Movie
         then (if resultsFromThisSource > 0 then st' else phase1 env ctx ty i st' rest)
         else (if resultsAfter \<ge> 2 then st' else phase1 env ctx ty i st' rest))"

definition minNeededForParallel :: "content_type \<Rightarrow> int" where
  "minNeededForParallel ty = (if ty = Movie then 1 else 2)"

text \<open>
  The order in which handlers started together finish. Each pick names, among the handlers
  still running (kept in the order they were started in), the next one to finish: pick \<open>n\<close>
  among \<open>k\<close> running handlers is the one at position \<open>n mod k\<close>. When the picks run out,
  the rest finish in the order they were started in. Every order of finishing is the result
  of some list of picks (lemma \<open>completion_order_any\<close>).
\<close>

fun completion_order :: "nat list \<Rightarrow> 'a list \<Rightarrow> 'a list" where
  "completion_order ns [] = []"
| "completion_order [] (x # xs) = x # xs"
| "completion_order (n # ns) (x # xs) =
     (let k = n mod length (x # xs)
      in (x # xs) ! k # completion_order ns (take k (x # xs) @ drop (Suc k) (x # xs)))"

text \<open>
  The second phase: \<^verbatim>\<open>await Promise.all(otherSources.map(s => handleSource(s)))\<close>.
  Every handler is started in list order and runs up to its first \<^verbatim>\<open>await\<close>, which is
  the call of \<^verbatim>\<open>source.handle\<close>: so the calls are made, and the trace is written, in list
  order. The rest of a handler (appending its results, or counting the failure and appending
  its error entry) runs when the handler finishes, in the order \<open>completion_order\<close> gives.
\<close>

definition phase2 ::
  "collab \<Rightarrow> context_t \<Rightarrow> content_type \<Rightarrow> string \<Rightarrow> rstate \<Rightarrow> source list \<Rightarrow> rstate" where
  "phase2 env ctx ty i st others =
     (if count_ok (allUrlResults st) < minNeededForParallel ty \<and> others \<noteq> []
      then (foldl (handleSource env ctx ty i) st (completion_order (completionOrder env) others))
             \<lparr> queried := queried st @ filter (\<lambda>s. ty \<in> set (contentTypes s)) others \<rparr>
      else st)"

definition initial_state :: rstate where
  "initial_state = \<lparr> allUrlResults = [], errorStreams = [], sourceErrorCount = 0, queried = [] \<rparr>"

definition run_sources ::
  "collab \<Rightarrow> context_t \<Rightarrow> source list \<Rightarrow> content_type \<Rightarrow> string \<Rightarrow> rstate" where
  "run_sources env ctx sources ty i =
     phase2 env ctx ty i
       (phase1 env ctx ty i initial_state (prioritizedSources sources))
       (otherSources sources)"

section \<open>Ranking, TTL and the response\<close>

definition height_or_0 :: "url_result \<Rightarrow> int" where
  "height_or_0 r = (case meta_get height r of None \<Rightarrow> 0 | Some h \<Rightarrow> h)"

definition bytes_or_0 :: "url_result \<Rightarrow> int" where
  "bytes_or_0 r = (case meta_get bytes r of None \<Rightarrow> 0 | Some b \<Rightarrow> b)"

text \<open>The comparison function handed to \<^verbatim>\<open>allUrlResults.sort\<close>.\<close>

definition compare_results :: "collab \<Rightarrow> url_result \<Rightarrow> url_result \<Rightarrow> int" where
  "compare_results env a b =
     (if error a \<noteq> None \<or> error b \<noteq> None then (if error a \<noteq> None then 1 else -1)
      else if isExternal a \<or> isExternal b then (if isExternal a then 1 else -1)
      else
        (let heightComparison = height_or_0 b - height_or_0 a
         in if heightComparison \<noteq> 0 then heightComparison
            else
              (let bytesComparison = bytes_or_0 b - bytes_or_0 a
               in if bytesComparison \<noteq> 0 then bytesComparison
                  else localeCompare env (label a) (label b))))"

definition determineTtl :: "url_result list \<Rightarrow> int option" where
  "determineTtl urlResults =
     (if urlResults = [] then Some 900000
      else if list_ex (\<lambda>urlResult. ttl urlResult = None) urlResults then None
      else Some (min_list (map (\<lambda>urlResult. the (ttl urlResult)) urlResults)))"

definition resolve ::
  "collab \<Rightarrow> context_t \<Rightarrow> source list \<Rightarrow> content_type \<Rightarrow> string \<Rightarrow> resolve_response" where
  "resolve env ctx sources ty i =
     (if sources = [] then \<lparr> streams = [no_sources_stream ctx], resp_ttl = None \<rparr>
      else
        (let st = run_sources env ctx sources ty i;
             sorted_results = js_sort (compare_results env) (allUrlResults st);
             shown = filter (\<lambda>urlResult. error urlResult = None \<or> showErrors (config ctx))
                       sorted_results;
             t = (if sourceErrorCount st = 0 then determineTtl sorted_results else None)
         in \<lparr> streams = errorStreams st @ map (format_stream env ctx) shown,
              resp_ttl = (if truthy_number t then t else None) \<rparr>))"

section \<open>Notions used in the statements\<close>

text \<open>The sources of a list whose \<^verbatim>\<open>handle\<close> call throws for this request.\<close>

definition failed_sources ::
  "context_t \<Rightarrow> content_type \<Rightarrow> string \<Rightarrow> source list \<Rightarrow> source list" where
  "failed_sources ctx ty i ss = filter (\<lambda>s. isl (handle s ctx ty i)) ss"

text \<open>A source takes part in a call only when it lists the requested content type.\<close>

definition supports :: "content_type \<Rightarrow> source \<Rightarrow> bool" where
  "supports ty s = (ty \<in> set (contentTypes s))"

text \<open>The URL Results one source adds to the aggregate when it is handled.\<close>

definition source_results ::
  "collab \<Rightarrow> context_t \<Rightarrow> content_type \<Rightarrow> string \<Rightarrow> source \<Rightarrow> url_result list" where
  "source_results env ctx ty i s =
     (if ty \<in> set (contentTypes s)
      then (case handle s ctx ty i of
              Inl e \<Rightarrow> []
            | Inr cs \<Rightarrow> concat (map (extract_candidate env ctx s) cs))
      else [])"

text \<open>The number of results without error marker among them.\<close>

definition contributed ::
  "collab \<Rightarrow> context_t \<Rightarrow> content_type \<Rightarrow> string \<Rightarrow> source \<Rightarrow> int" where
  "contributed env ctx ty i s = count_ok (source_results env ctx ty i s)"

text \<open>The prefix of a list up to and including its first element with property \<open>P\<close>.\<close>

fun upto_first :: "('a \<Rightarrow> bool) \<Rightarrow> 'a list \<Rightarrow> 'a list" where
  "upto_first P [] = []"
| "upto_first P (x # xs) = (if P x then [x] else x # upto_first P xs)"

text \<open>
  The prefix of a list up to and including the first element at which the running total
  of the weights, started at \<open>acc\<close>, reaches \<open>n\<close>.
\<close>

fun upto_total :: "('a \<Rightarrow> int) \<Rightarrow> int \<Rightarrow> int \<Rightarrow> 'a list \<Rightarrow> 'a list" where
  "upto_total w n acc [] = []"
| "upto_total w n acc (x # xs) =
     (if n \<le> acc + w x then [x] else x # upto_total w n (acc + w x) xs)"



text \<open>The count of results without error marker after handling a list of sources in order.\<close>

definition count_after ::
  "collab \<Rightarrow> context_t \<Rightarrow> content_type \<Rightarrow> string \<Rightarrow> source list \<Rightarrow> int" where
  "count_after env ctx ty i ss =
     count_ok (allUrlResults (foldl (handleSource env ctx ty i) initial_state ss))"

text \<open>
  The sources \<^verbatim>\<open>handleSource\<close> is started on in one call, in order: the prefix of the
  prioritized sources up to the early exit, then, when too few results were found, every
  other source.
\<close>

definition sources_handled ::
  "collab \<Rightarrow> context_t \<Rightarrow> content_type \<Rightarrow> string \<Rightarrow> source list \<Rightarrow> source list" where
  "sources_handled env ctx ty i sources =
     (let pri = prioritizedSources sources;
          run = (if ty = Movie then upto_first (\<lambda>s. 0 < contributed env ctx ty i s) pri
                 else upto_total (contributed env ctx ty i) 2 0 pri)
      in run @ (if count_after env ctx ty i run < minNeededForParallel ty
                then otherSources sources else []))"

text \<open>The same sources in the order in which their handlers finish.\<close>

definition sources_finished ::
  "collab \<Rightarrow> context_t \<Rightarrow> content_type \<Rightarrow> string \<Rightarrow> source list \<Rightarrow> source list" where
  "sources_finished env ctx ty i sources =
     (let pri = prioritizedSources sources;
          run = (if ty = Movie then upto_first (\<lambda>s. 0 < contributed env ctx ty i s) pri
                 else upto_total (contributed env ctx ty i) 2 0 pri)
      in run @ (if count_after env ctx ty i run < minNeededForParallel ty
                then completion_order (completionOrder env) (otherSources sources) else []))"

text \<open>The entries shown for the sources of a list whose call throws, in list order.\<close>

definition failure_streams ::
  "collab \<Rightarrow> context_t \<Rightarrow> content_type \<Rightarrow> string \<Rightarrow> source list \<Rightarrow> stream list" where
  "failure_streams env ctx ty i ss =
     concat (map (\<lambda>s. case handle s ctx ty i of
                          Inl e \<Rightarrow> [source_error_stream env ctx s e]
                        | Inr cs \<Rightarrow> []) ss)"

text \<open>
  The same source, except that a call that throws for this request is replaced by one
  that returns no candidate.
\<close>

definition without_failure :: "context_t \<Rightarrow> content_type \<Rightarrow> string \<Rightarrow> source \<Rightarrow> source" where
  "without_failure ctx ty i s =
     (if isl (handle s ctx ty i) then s \<lparr> handle := (\<lambda>c t j. Inr []) \<rparr> else s)"

text \<open>No result with error marker stands in front of a result without one.\<close>

fun errors_last :: "url_result list \<Rightarrow> bool" where
  "errors_last [] = True"
| "errors_last (r # rs) =
     ((if error r = None then True else list_all (\<lambda>q. error q \<noteq> None) rs) \<and> errors_last rs)"

section \<open>A concrete scenario\<close>

text \<open>
  Collaborators and sources on which the theorems below are instantiated: an extractor
  that fails on one address, answers with a TTL of zero on another and with a TTL of one
  hour otherwise; sources that return fixed candidates, and a source that throws.
  Concurrent handlers finish in the order they were started in, unless a theorem sets other
  picks.
\<close>

definition ex_url :: "jstring \<Rightarrow> url" where
  "ex_url h = \<lparr> protocol = ascii ''https:'', href = h \<rparr>"

definition ex_extractor :: "context_t \<Rightarrow> url \<Rightarrow> meta \<Rightarrow> js_error + url_result list" where
  "ex_extractor ctx u m =
     (if href u = (ascii ''https://e.example/fail'') then Inl (JsError ''extractor failed'')
      else Inr [\<lparr> url = u, label = ascii ''HD'', meta = Some m, isExternal = False, format = Mp4,
                  requestHeaders = None, error = None, ytId = None,
                  ttl = (if href u = (ascii ''https://e.example/zero'') then Some 0 else Some 3600000) \<rparr>])"

text \<open>Upper case on the ASCII letters, where \<^verbatim>\<open>toUpperCase\<close> does the same.\<close>

definition ex_upper :: "jstring \<Rightarrow> jstring" where
  "ex_upper s = map (\<lambda>n. if 97 \<le> n \<and> n \<le> 122 then n - 32 else n) s"

definition ex_env :: collab where
  "ex_env = \<lparr> extractorHandle = ex_extractor,
              envGetAppName = ascii ''WebStreamr'',
              logErrorAndReturnNiceString = (\<lambda>ctx ident e. case e of JsError m \<Rightarrow> ascii m),
              flagFromCountryCode = (\<lambda>cc. cc),
              bytesFormat = (\<lambda>n. ascii ''1 GB''),
              localeCompare = (\<lambda>a b. int (length a) - int (length b)),
              toUpperCase = ex_upper,
              completionOrder = [] \<rparr>"

definition ex_ctx :: context_t where
  "ex_ctx = \<lparr> hostUrl = ex_url (ascii ''https://host.example/''),
              config = \<lparr> showErrorsOption = True, showExternalUrlsOption = False \<rparr> \<rparr>"

definition ex_source :: "jstring \<Rightarrow> content_type list \<Rightarrow> jstring list \<Rightarrow> source" where
  "ex_source ident tys hrefs = \<lparr> sid = ident, slabel = ident, baseUrl = ascii ''https://'' @ ident,
      contentTypes = tys,
      handle = (\<lambda>ctx ty i. Inr (map (\<lambda>h. (ex_url h, None)) hrefs)) \<rparr>"

definition ex_failing_source :: "jstring \<Rightarrow> content_type list \<Rightarrow> source" where
  "ex_failing_source ident tys = \<lparr> sid = ident, slabel = ident, baseUrl = ascii ''https://'' @ ident,
      contentTypes = tys,
      handle = (\<lambda>ctx ty i. Inl (JsError ''source down'')) \<rparr>"

definition one_hit :: "jstring list" where
  "one_hit = [ascii ''https://e.example/one'']"



text \<open>
  A prioritized source that finds nothing, and three other sources: one finds a stream,
  one does not list movies, one throws.
\<close>

definition ex_fallback_sources :: "source list" where
  "ex_fallback_sources =
     [ex_source (ascii ''embed69'') [Movie] [],
      ex_source (ascii ''alpha'') [Movie] one_hit,
      ex_source (ascii ''beta'') [Series] one_hit,
      ex_failing_source (ascii ''gamma'') [Movie]]"


text \<open>
  A playable result with label \<^verbatim>\<open>HD\<close> from the source labelled \<^verbatim>\<open>Embed69\<close>, and the
  same result with a title in its meta.
\<close>

definition ex_plain_result :: url_result where
  "ex_plain_result = \<lparr> url = ex_url (ascii ''https://cdn.example/v.mp4''), label = ascii ''HD'',
      meta = Some \<lparr> title = None, height = Some 1080, bytes = None,
                    countryCodes = Some [ascii ''es''], sourceId = Some (ascii ''embed69''),
                    sourceLabel = Some (ascii ''Embed69'') \<rparr>,
      isExternal = False, format = Mp4, requestHeaders = None, error = None, ytId = None,
      ttl = Some 3600000 \<rparr>"

definition ex_titled_result :: url_result where
  "ex_titled_result = ex_plain_result \<lparr> meta := Some \<lparr> title = Some (ascii ''My Title''),
      height = Some 1080, bytes = None, countryCodes = Some [ascii ''es''],
      sourceId = Some (ascii ''embed69''), sourceLabel = Some (ascii ''Embed69'') \<rparr> \<rparr>"

text \<open>A URL Result with a height, a size, two country codes and a label with a parenthesis.\<close>

definition ex_result :: url_result where
  "ex_result = \<lparr> url = ex_url (ascii ''https://cdn.example/v.mp4''), label = ascii ''Stream HD (es)'',
      meta = Some \<lparr> title = None, height = Some 1080, bytes = Some 1500000000,
                    countryCodes = Some [ascii ''es'', ascii ''mx''], sourceId = Some (ascii ''embed69''),
                    sourceLabel = Some (ascii ''Embed69'') \<rparr>,
      isExternal = False, format = Mp4, requestHeaders = None, error = None, ytId = None,
      ttl = Some 3600000 \<rparr>"

text \<open>Two external results that differ in height only, and two results with error marker.\<close>

definition ex_external :: "int \<Rightarrow> url_result" where
  "ex_external h = \<lparr> url = ex_url (ascii ''https://site.example/watch''), label = ascii ''Site'',
      meta = Some \<lparr> title = None, height = Some h, bytes = None, countryCodes = None,
                    sourceId = Some (ascii ''embed69''), sourceLabel = Some (ascii ''Embed69'') \<rparr>,
      isExternal = True, format = OtherFormat, requestHeaders = None, error = None,
      ytId = None, ttl = Some 3600000 \<rparr>"

definition ex_broken :: "int \<Rightarrow> url_result" where
  "ex_broken h = (ex_external h) \<lparr> isExternal := False, error := Some (JsError ''blocked'') \<rparr>"

section \<open>Facts about the sort and the order of finishing\<close>

lemmas ex_defs = ascii_def ex_url_def ex_extractor_def ex_env_def ex_ctx_def ex_source_def
  ex_failing_source_def ex_upper_def

lemmas run_defs = resolve_def run_sources_def phase2_def prioritizedSources_def
  otherSources_def prioritySourceIds_def js_sort_def handleSource_def extract_candidate_def
  candidate_meta_def count_ok_def initial_state_def minNeededForParallel_def or_string_def
  Let_def

lemma set_insert_sorted: "set (insert_sorted cmp x xs) = insert x (set xs)"
  by (induction xs) auto

lemma length_insert_sorted: "length (insert_sorted cmp x xs) = Suc (length xs)"
  by (induction xs) auto


lemma set_foldl_insert_sorted:
  "set (foldl (\<lambda>acc x. insert_sorted cmp x acc) acc xs) = set acc \<union> set xs"
  by (induction xs arbitrary: acc) (auto simp: set_insert_sorted)

lemma length_foldl_insert_sorted:
  "length (foldl (\<lambda>acc x. insert_sorted cmp x acc) acc xs) = length acc + length xs"
  by (induction xs arbitrary: acc) (auto simp: length_insert_sorted)


lemma set_js_sort: "set (js_sort cmp xs) = set xs"
  by (simp add: js_sort_def set_foldl_insert_sorted)

lemma length_js_sort: "length (js_sort cmp xs) = length xs"
  by (simp add: js_sort_def length_foldl_insert_sorted)


lemma js_sort_Nil_iff: "js_sort cmp xs = [] \<longleftrightarrow> xs = []"
  using length_js_sort [of cmp xs] by (metis length_0_conv)

lemma completion_order_no_picks: "completion_order [] xs = xs"
  by (cases xs) simp_all

lemma mset_remove_nth:
  "k < length l \<Longrightarrow> add_mset (l ! k) (mset (take k l @ drop (Suc k) l)) = mset l"
proof -
  assume "k < length l"
  then have "l = take k l @ l ! k # drop (Suc k) l"
    by (rule id_take_nth_drop)
  then have "mset l = mset (take k l @ l ! k # drop (Suc k) l)"
    by simp
  then show ?thesis by simp
qed

lemma mset_completion_order: "mset (completion_order ns xs) = mset xs"
proof (induction ns arbitrary: xs)
  case Nil
  then show ?case by (simp add: completion_order_no_picks)
next
  case (Cons n ns)
  show ?case
  proof (cases xs)
    case Nil
    then show ?thesis by simp
  next
    case (Cons y ys)
    have k: "n mod length (y # ys) < length (y # ys)" by simp
    show ?thesis
      unfolding Cons completion_order.simps Let_def
      using mset_remove_nth [OF k] Cons.IH by simp
  qed
qed

lemma set_completion_order: "set (completion_order ns xs) = set xs"
  using mset_completion_order [of ns xs] by (metis set_mset_mset)

lemma length_completion_order: "length (completion_order ns xs) = length xs"
  using mset_completion_order [of ns xs] by (metis size_mset)

lemma completion_order_map:
  "completion_order ns (map f xs) = map f (completion_order ns xs)"
proof (induction ns arbitrary: xs)
  case Nil
  then show ?case by (simp add: completion_order_no_picks)
next
  case (Cons n ns)
  show ?case
  proof (cases xs)
    case Nil
    then show ?thesis by simp
  next
    case (Cons y ys)
    have k: "n mod Suc (length ys) < length (y # ys)" by simp
    have "completion_order ns (take (n mod Suc (length ys)) (map f (y # ys))
            @ drop (Suc (n mod Suc (length ys))) (map f (y # ys)))
        = map f (completion_order ns (take (n mod Suc (length ys)) (y # ys)
            @ drop (Suc (n mod Suc (length ys))) (y # ys)))"
      using Cons.IH [of "take (n mod Suc (length ys)) (y # ys)
            @ drop (Suc (n mod Suc (length ys))) (y # ys)"]
      by (simp only: take_map drop_map map_append)
    moreover have "map f (y # ys) ! (n mod Suc (length ys)) = f ((y # ys) ! (n mod Suc (length ys)))"
      using k by (rule nth_map)
    ultimately show ?thesis
      unfolding Cons by (simp add: Let_def del: nth_Cons_Suc take_Suc_Cons drop_Suc_Cons)
  qed
qed

text \<open>Every order of finishing is the result of some picks.\<close>

lemma completion_order_any:
  "mset ys = mset xs \<Longrightarrow> \<exists>ns. completion_order ns xs = ys"
proof (induction ys arbitrary: xs)
  case Nil
  then show ?case by simp
next
  case (Cons y ys)
  then have "y \<in> set xs"
    by (metis list.set_intros(1) set_mset_mset)
  then obtain k where k: "k < length xs" "xs ! k = y"
    by (auto simp: in_set_conv_nth)
  then obtain x xs' where x: "xs = x # xs'"
    by (cases xs) auto
  have "add_mset y (mset (take k xs @ drop (Suc k) xs)) = add_mset y (mset ys)"
    using mset_remove_nth [OF k(1)] k(2) Cons.prems by simp
  then have "mset ys = mset (take k xs @ drop (Suc k) xs)"
    by simp
  from Cons.IH [OF this] obtain ns
    where ns: "completion_order ns (take k xs @ drop (Suc k) xs) = ys" by blast
  have "k mod length (x # xs') = k"
    using k(1) x by simp
  then have "completion_order (k # ns) (x # xs') = (x # xs') ! k
      # completion_order ns (take k (x # xs') @ drop (Suc k) (x # xs'))"
    by (simp add: Let_def del: nth_Cons_Suc take_Suc_Cons drop_Suc_Cons)
  then have "completion_order (k # ns) xs = y # ys"
    using ns k(2) unfolding x by simp
  then show ?case by blast
qed

section \<open>The state of a call\<close>

lemma supports_eq: "(\<lambda>s. ty \<in> set (contentTypes s)) = supports ty"
  by (rule ext) (simp add: supports_def)

lemma count_ok_append: "count_ok (xs @ ys) = count_ok xs + count_ok ys"
  by (simp add: count_ok_def)


lemma allUrlResults_handleSource:
  "allUrlResults (handleSource env ctx ty i st s) = allUrlResults st @ source_results env ctx ty i s"
  by (simp add: handleSource_def source_results_def split: sum.splits)

lemma queried_handleSource:
  "queried (handleSource env ctx ty i st s) = queried st @ (if supports ty s then [s] else [])"
  by (simp add: handleSource_def supports_def split: sum.splits)

lemma count_ok_handleSource:
  "count_ok (allUrlResults (handleSource env ctx ty i st s))
     = count_ok (allUrlResults st) + contributed env ctx ty i s"
  by (simp add: allUrlResults_handleSource count_ok_append contributed_def)

lemma allUrlResults_foldl:
  "allUrlResults (foldl (handleSource env ctx ty i) st ss)
     = allUrlResults st @ concat (map (source_results env ctx ty i) ss)"
  by (induction ss arbitrary: st) (simp_all add: allUrlResults_handleSource)

lemma queried_foldl:
  "queried (foldl (handleSource env ctx ty i) st ss) = queried st @ filter (supports ty) ss"
  by (induction ss arbitrary: st) (simp_all add: queried_handleSource)

lemma count_ok_foldl:
  "count_ok (allUrlResults (foldl (handleSource env ctx ty i) st ss))
     = count_ok (allUrlResults st) + sum_list (map (contributed env ctx ty i) ss)"
  by (induction ss arbitrary: st) (simp_all add: count_ok_handleSource)


lemma phase1_movie:
  "phase1 env ctx Movie i st ss =
     foldl (handleSource env ctx Movie i) st
       (upto_first (\<lambda>s. 0 < contributed env ctx Movie i s) ss)"
  by (induction ss arbitrary: st) (simp_all add: Let_def count_ok_handleSource)

lemma phase1_series:
  "ty \<noteq> Movie \<Longrightarrow>
   phase1 env ctx ty i st ss =
     foldl (handleSource env ctx ty i) st
       (upto_total (contributed env ctx ty i) 2 (count_ok (allUrlResults st)) ss)"
  by (induction ss arbitrary: st) (simp_all add: Let_def count_ok_handleSource)

lemma sourceErrorCount_handleSource:
  "sourceErrorCount (handleSource env ctx ty i st s)
     = sourceErrorCount st + length (failed_sources ctx ty i (filter (supports ty) [s]))"
  by (simp add: handleSource_def failed_sources_def supports_def split: sum.splits)

lemma failed_sources_append:
  "failed_sources ctx ty i (xs @ ys) = failed_sources ctx ty i xs @ failed_sources ctx ty i ys"
  by (simp add: failed_sources_def)

lemma sourceErrorCount_foldl:
  "sourceErrorCount (foldl (handleSource env ctx ty i) st ss)
     = sourceErrorCount st + length (failed_sources ctx ty i (filter (supports ty) ss))"
proof (induction ss arbitrary: st)
  case Nil
  then show ?case by (simp add: failed_sources_def)
next
  case (Cons s ss)
  have "filter (supports ty) (s # ss) = filter (supports ty) [s] @ filter (supports ty) ss"
    by simp
  then show ?case
    unfolding foldl_Cons Cons.IH sourceErrorCount_handleSource
    by (simp only: failed_sources_append length_append add.assoc)
qed

lemma errorStreams_handleSource:
  "errorStreams (handleSource env ctx ty i st s) = errorStreams st
     @ (if showErrors (config ctx) then failure_streams env ctx ty i (filter (supports ty) [s])
        else [])"
  by (simp add: handleSource_def failure_streams_def supports_def split: sum.splits)

lemma failure_streams_append:
  "failure_streams env ctx ty i (xs @ ys)
     = failure_streams env ctx ty i xs @ failure_streams env ctx ty i ys"
  by (simp add: failure_streams_def)

lemma errorStreams_foldl:
  "errorStreams (foldl (handleSource env ctx ty i) st ss) = errorStreams st
     @ (if showErrors (config ctx) then failure_streams env ctx ty i (filter (supports ty) ss)
        else [])"
proof (induction ss arbitrary: st)
  case Nil
  then show ?case by (simp add: failure_streams_def)
next
  case (Cons s ss)
  have "filter (supports ty) (s # ss) = filter (supports ty) [s] @ filter (supports ty) ss"
    by simp
  then show ?case
    unfolding foldl_Cons Cons.IH errorStreams_handleSource
    by (simp only: failure_streams_append append_assoc split: if_splits) simp
qed

lemma errorStreams_initial: "errorStreams initial_state = []"
  by (simp add: initial_state_def)

lemma sourceErrorCount_initial: "sourceErrorCount initial_state = 0"
  by (simp add: initial_state_def)

lemma queried_initial: "queried initial_state = []"
  by (simp add: initial_state_def)

lemma allUrlResults_initial: "allUrlResults initial_state = []"
  by (simp add: initial_state_def)

lemma count_ok_Nil: "count_ok [] = 0"
  by (simp add: count_ok_def)


lemma count_after_sum:
  "count_after env ctx ty i ss = sum_list (map (contributed env ctx ty i) ss)"
  by (simp add: count_after_def count_ok_foldl allUrlResults_initial count_ok_Nil)

text \<open>The first phase handles a prefix of the prioritized sources.\<close>

lemma phase1_run:
  "phase1 env ctx ty i initial_state pri =
     foldl (handleSource env ctx ty i) initial_state
       (if ty = Movie then upto_first (\<lambda>s. 0 < contributed env ctx ty i s) pri
        else upto_total (contributed env ctx ty i) 2 0 pri)"
proof (cases "ty = Movie")
  case True
  then show ?thesis by (simp add: phase1_movie)
next
  case False
  then show ?thesis
    using phase1_series [OF False, of env ctx i initial_state pri]
    by (simp add: allUrlResults_initial count_ok_Nil)
qed

text \<open>
  The state at the end of the scheduling: the handlers have run in the order of
  \<open>sources_finished\<close>, and the calls were made in the order of \<open>sources_handled\<close>.
\<close>

lemma run_sources_unfold:
  "run_sources env ctx sources ty i =
     (foldl (handleSource env ctx ty i) initial_state (sources_finished env ctx ty i sources))
       \<lparr> queried := filter (supports ty) (sources_handled env ctx ty i sources) \<rparr>"
proof -
  define run where "run = (if ty = Movie
      then upto_first (\<lambda>s. 0 < contributed env ctx ty i s) (prioritizedSources sources)
      else upto_total (contributed env ctx ty i) 2 0 (prioritizedSources sources))"
  define st1 where "st1 = foldl (handleSource env ctx ty i) initial_state run"
  have p: "phase1 env ctx ty i initial_state (prioritizedSources sources) = st1"
    unfolding st1_def run_def by (rule phase1_run)
  have q: "queried st1 = filter (supports ty) run"
    unfolding st1_def by (simp add: queried_foldl queried_initial)
  have c: "count_after env ctx ty i run = count_ok (allUrlResults st1)"
    unfolding st1_def count_after_def by (rule refl)
  have same: "st1 \<lparr> queried := filter (supports ty) run \<rparr> = st1"
    using q by simp
  show ?thesis
  proof (cases "count_ok (allUrlResults st1) < minNeededForParallel ty")
    case True
    show ?thesis
    proof (cases "otherSources sources = []")
      case True
      then show ?thesis
        unfolding run_sources_def phase2_def p sources_finished_def sources_handled_def Let_def
          run_def [symmetric] c
        using same by (simp add: st1_def)
    next
      case False
      with True show ?thesis
        unfolding run_sources_def phase2_def p sources_finished_def sources_handled_def Let_def
          run_def [symmetric] c
        by (simp add: q supports_eq) (simp add: st1_def)
    qed
  next
    case False
    then show ?thesis
      unfolding run_sources_def phase2_def p sources_finished_def sources_handled_def Let_def
        run_def [symmetric] c
      using same by (simp add: st1_def)
  qed
qed

lemma queried_run_sources:
  "queried (run_sources env ctx sources ty i)
     = filter (supports ty) (sources_handled env ctx ty i sources)"
  by (simp add: run_sources_unfold)

lemma allUrlResults_run_sources:
  "allUrlResults (run_sources env ctx sources ty i)
     = concat (map (source_results env ctx ty i) (sources_finished env ctx ty i sources))"
  by (simp add: run_sources_unfold allUrlResults_foldl allUrlResults_initial)

lemma errorStreams_run_sources:
  "errorStreams (run_sources env ctx sources ty i) =
     (if showErrors (config ctx)
      then failure_streams env ctx ty i
             (filter (supports ty) (sources_finished env ctx ty i sources))
      else [])"
  by (simp add: run_sources_unfold errorStreams_foldl errorStreams_initial)

lemma sourceErrorCount_run_sources:
  "sourceErrorCount (run_sources env ctx sources ty i) =
     length (failed_sources ctx ty i
       (filter (supports ty) (sources_finished env ctx ty i sources)))"
  by (simp add: run_sources_unfold sourceErrorCount_foldl sourceErrorCount_initial)

text \<open>The handlers that finish are the handlers that were started.\<close>

lemma mset_sources_finished:
  "mset (sources_finished env ctx ty i sources) = mset (sources_handled env ctx ty i sources)"
  by (simp add: sources_finished_def sources_handled_def Let_def mset_completion_order)

lemma sources_finished_in_order:
  "completionOrder env = [] \<Longrightarrow>
   sources_finished env ctx ty i sources = sources_handled env ctx ty i sources"
  by (simp add: sources_finished_def sources_handled_def Let_def completion_order_no_picks)

lemma mset_finished_queried:
  "mset (filter (supports ty) (sources_finished env ctx ty i sources))
     = mset (queried (run_sources env ctx sources ty i))"
  by (simp add: queried_run_sources mset_sources_finished)

section \<open>The TTL of the response\<close>

lemma determineTtl_set:
  "determineTtl rs =
     (if rs = [] then Some 900000
      else if \<exists>r \<in> set rs. ttl r = None then None
      else Some (Min ((\<lambda>r. the (ttl r)) ` set rs)))"
  by (auto simp: determineTtl_def list_ex_iff min_list_Min)

lemma determineTtl_js_sort: "determineTtl (js_sort cmp rs) = determineTtl rs"
  unfolding determineTtl_set set_js_sort js_sort_Nil_iff by (rule refl)


text \<open>The error counter counts the queried sources whose call failed.\<close>

lemma run_sources_count:
  "sourceErrorCount (run_sources env ctx sources ty i) =
     length (failed_sources ctx ty i (queried (run_sources env ctx sources ty i)))"
proof -
  have "mset (failed_sources ctx ty i
          (filter (supports ty) (sources_finished env ctx ty i sources)))
      = mset (failed_sources ctx ty i (queried (run_sources env ctx sources ty i)))"
    using arg_cong [OF mset_finished_queried [of ty env ctx i sources],
        of "filter_mset (\<lambda>s. isl (handle s ctx ty i))"]
    unfolding failed_sources_def by (simp only: mset_filter)
  then have "length (failed_sources ctx ty i
          (filter (supports ty) (sources_finished env ctx ty i sources)))
      = length (failed_sources ctx ty i (queried (run_sources env ctx sources ty i)))"
    by (rule mset_eq_length)
  then show ?thesis
    unfolding sourceErrorCount_run_sources .
qed

lemma resolve_ttl:
  "sources \<noteq> [] \<Longrightarrow>
   resp_ttl (resolve env ctx sources ty i) =
     (let st = run_sources env ctx sources ty i;
          t = (if sourceErrorCount st = 0 then determineTtl (allUrlResults st) else None)
      in if truthy_number t then t else None)"
  by (simp add: resolve_def Let_def determineTtl_js_sort)

text \<open>
  C5, as amended. For a call with at least one source: when the call of some queried
  source failed, the response has no TTL; otherwise an empty aggregate gives 900000; otherwise
  a result without a TTL of its own gives no TTL; otherwise the TTL is the least of the
  results' TTLs, except that a least TTL of 0 gives no TTL.
\<close>

theorem ttl_policy:
  assumes "sources \<noteq> []"
  shows "resp_ttl (resolve env ctx sources ty i) =
     (let st = run_sources env ctx sources ty i; rs = allUrlResults st
      in if failed_sources ctx ty i (queried st) \<noteq> [] then None
         else if rs = [] then Some 900000
         else if \<exists>r \<in> set rs. ttl r = None then None
         else if Min ((\<lambda>r. the (ttl r)) ` set rs) = 0 then None
         else Some (Min ((\<lambda>r. the (ttl r)) ` set rs)))"
  using assms
  by (auto simp: resolve_ttl run_sources_count determineTtl_set truthy_number_def Let_def)

theorem ttl_policy_witness:
  "[ex_source (ascii ''embed69'') [Movie] [ascii ''https://e.example/one'']] \<noteq> []
   \<and> resp_ttl (resolve ex_env ex_ctx [ex_source (ascii ''embed69'') [Movie] [ascii ''https://e.example/one'']]
        Movie ''tt1'') = Some 3600000"
  using ttl_policy [of "[ex_source (ascii ''embed69'') [Movie] [ascii ''https://e.example/one'']]"
      ex_env ex_ctx Movie "''tt1''"]
  by (simp add: run_defs ex_defs failed_sources_def)

text \<open>
  C5 as stated fails twice: one source whose only result has a TTL of 0 gives a response
  without TTL although the least TTL is 0, and a call without sources gives a response
  without TTL although no source failed and there is no result.
\<close>

theorem ttl_policy_counterexample:
  "sourceErrorCount (run_sources ex_env ex_ctx
       [ex_source (ascii ''embed69'') [Movie] [ascii ''https://e.example/zero'']] Movie ''tt1'') = 0
   \<and> map ttl (allUrlResults (run_sources ex_env ex_ctx
       [ex_source (ascii ''embed69'') [Movie] [ascii ''https://e.example/zero'']] Movie ''tt1'')) = [Some 0]
   \<and> resp_ttl (resolve ex_env ex_ctx
       [ex_source (ascii ''embed69'') [Movie] [ascii ''https://e.example/zero'']] Movie ''tt1'') = None
   \<and> resp_ttl (resolve ex_env ex_ctx [] Movie ''tt1'') = None"
  by (simp add: run_defs ex_defs determineTtl_def truthy_number_def compare_results_def)

text \<open>
  C6. A call with an empty sources list answers with exactly one stream entry, whose
  title tells the user to reconfigure the addon and whose external URL is the host URL, and
  with no TTL.
\<close>

theorem resolve_no_sources:
  "resolve env ctx [] ty i = \<lparr> streams = [no_sources_stream ctx], resp_ttl = None \<rparr>
   \<and> length (streams (resolve env ctx [] ty i)) = 1
   \<and> st_name (no_sources_stream ctx) = ascii ''WebStreamr''
   \<and> st_title (no_sources_stream ctx) = glyph_warning
        @ ascii '' No se encontraron fuentes. Por favor, reconfigure el complemento.''
   \<and> st_externalUrl (no_sources_stream ctx) = Some (href (hostUrl ctx))
   \<and> st_url (no_sources_stream ctx) = None"
  by (simp add: resolve_def no_sources_stream_def)

theorem resolve_no_sources_witness:
  "streams (resolve ex_env ex_ctx [] Series ''tt1'') = [no_sources_stream ex_ctx]
   \<and> resp_ttl (resolve ex_env ex_ctx [] Series ''tt1'') = None
   \<and> st_externalUrl (no_sources_stream ex_ctx) = Some (ascii ''https://host.example/'')"
  using resolve_no_sources [of ex_env ex_ctx Series "''tt1''"]
  by (simp add: ex_defs)

text \<open>
  C10. When no queried source failed, the aggregate is not empty, every result has a TTL
  of its own and the least of them is 0, the response has no TTL.
\<close>

theorem zero_ttl_dropped:
  assumes "failed_sources ctx ty i (queried (run_sources env ctx sources ty i)) = []"
    and "allUrlResults (run_sources env ctx sources ty i) \<noteq> []"
    and "\<forall>r \<in> set (allUrlResults (run_sources env ctx sources ty i)). ttl r \<noteq> None"
    and "Min ((\<lambda>r. the (ttl r)) ` set (allUrlResults (run_sources env ctx sources ty i))) = 0"
  shows "resp_ttl (resolve env ctx sources ty i) = None"
proof (cases "sources = []")
  case True
  then show ?thesis by (simp add: resolve_def)
next
  case False
  then show ?thesis
    using assms
    by (auto simp: resolve_ttl run_sources_count determineTtl_set truthy_number_def Let_def)
qed

theorem zero_ttl_dropped_witness:
  "allUrlResults (run_sources ex_env ex_ctx
       [ex_source (ascii ''embed69'') [Movie] [ascii ''https://e.example/zero'', ascii ''https://e.example/one'']]
       Movie ''tt1'') \<noteq> []
   \<and> map ttl (allUrlResults (run_sources ex_env ex_ctx
       [ex_source (ascii ''embed69'') [Movie] [ascii ''https://e.example/zero'', ascii ''https://e.example/one'']]
       Movie ''tt1'')) = [Some 0, Some 3600000]
   \<and> resp_ttl (resolve ex_env ex_ctx
       [ex_source (ascii ''embed69'') [Movie] [ascii ''https://e.example/zero'', ascii ''https://e.example/one'']]
       Movie ''tt1'') = None"
  using zero_ttl_dropped [where sources =
      "[ex_source (ascii ''embed69'') [Movie] [ascii ''https://e.example/zero'', ascii ''https://e.example/one'']]"
      and ctx = ex_ctx and ty = Movie and i = "''tt1''" and env = ex_env]
  by (simp add: run_defs ex_defs failed_sources_def)

section \<open>The two phases\<close>





























section \<open>Failing sources\<close>

lemma insert_sorted_map:
  assumes "\<And>a b. cmp (f a) (f b) = cmp' a b"
  shows "insert_sorted cmp (f x) (map f ys) = map f (insert_sorted cmp' x ys)"
  by (induction ys) (simp_all add: assms)

lemma foldl_insert_sorted_map:
  assumes "\<And>a b. cmp (f a) (f b) = cmp' a b"
  shows "foldl (\<lambda>acc x. insert_sorted cmp x acc) (map f acc) (map f xs)
     = map f (foldl (\<lambda>acc x. insert_sorted cmp' x acc) acc xs)"
proof (induction xs arbitrary: acc)
  case Nil
  then show ?case by simp
next
  case (Cons x xs)
  show ?case
    using Cons.IH [of "insert_sorted cmp' x acc"]
    by (simp add: insert_sorted_map [of cmp f cmp', OF assms])
qed

lemma js_sort_map:
  assumes "\<And>a b. cmp (f a) (f b) = cmp' a b"
  shows "js_sort cmp (map f xs) = map f (js_sort cmp' xs)"
  unfolding js_sort_def
  using foldl_insert_sorted_map [of cmp f cmp' "[]" xs, OF assms] by simp

lemma prioritizedSources_map:
  assumes "\<And>s. sid (f s) = sid s"
  shows "prioritizedSources (map f sources) = map f (prioritizedSources sources)"
proof -
  have 1: "filter (\<lambda>s. sid s \<in> set prioritySourceIds) (map f sources)
      = map f (filter (\<lambda>s. sid s \<in> set prioritySourceIds) sources)"
    by (simp add: filter_map o_def assms)
  show ?thesis
    unfolding prioritizedSources_def 1
    by (rule js_sort_map) (simp add: assms)
qed

lemma otherSources_map:
  assumes "\<And>s. sid (f s) = sid s"
  shows "otherSources (map f sources) = map f (otherSources sources)"
  by (simp add: otherSources_def filter_map o_def assms)

lemma upto_first_map: "upto_first P (map f xs) = map f (upto_first (\<lambda>x. P (f x)) xs)"
  by (induction xs) simp_all

lemma upto_total_map:
  "upto_total w n acc (map f xs) = map f (upto_total (\<lambda>x. w (f x)) n acc xs)"
  by (induction xs arbitrary: acc) simp_all

lemma sources_handled_map:
  assumes "\<And>s. sid (f s) = sid s"
    and "\<And>s. contributed env ctx ty i (f s) = contributed env ctx ty i s"
  shows "sources_handled env ctx ty i (map f sources)
     = map f (sources_handled env ctx ty i sources)"
proof -
  have c: "(\<lambda>x. contributed env ctx ty i (f x)) = contributed env ctx ty i"
    by (rule ext) (rule assms(2))
  have p: "(\<lambda>x. 0 < contributed env ctx ty i (f x)) = (\<lambda>s. 0 < contributed env ctx ty i s)"
    by (rule ext) (simp add: assms(2))
  have m: "sum_list (map (contributed env ctx ty i) (map f xs))
      = sum_list (map (contributed env ctx ty i) xs)" for xs
    by (simp add: o_def c)
  define run where "run = (if ty = Movie
      then upto_first (\<lambda>s. 0 < contributed env ctx ty i s) (prioritizedSources sources)
      else upto_total (contributed env ctx ty i) 2 0 (prioritizedSources sources))"
  have r: "(if ty = Movie
      then upto_first (\<lambda>s. 0 < contributed env ctx ty i s) (prioritizedSources (map f sources))
      else upto_total (contributed env ctx ty i) 2 0 (prioritizedSources (map f sources)))
    = map f run"
    unfolding run_def prioritizedSources_map [of f, OF assms(1)] upto_first_map upto_total_map c p
    by simp
  show ?thesis
    unfolding sources_handled_def Let_def r run_def [symmetric] count_after_sum m
      otherSources_map [of f, OF assms(1)]
    by simp
qed


lemma sources_finished_map:
  assumes "\<And>s. sid (f s) = sid s"
    and "\<And>s. contributed env ctx ty i (f s) = contributed env ctx ty i s"
  shows "sources_finished env ctx ty i (map f sources)
     = map f (sources_finished env ctx ty i sources)"
proof -
  have c: "(\<lambda>x. contributed env ctx ty i (f x)) = contributed env ctx ty i"
    by (rule ext) (rule assms(2))
  have p: "(\<lambda>x. 0 < contributed env ctx ty i (f x)) = (\<lambda>s. 0 < contributed env ctx ty i s)"
    by (rule ext) (simp add: assms(2))
  have m: "sum_list (map (contributed env ctx ty i) (map f xs))
      = sum_list (map (contributed env ctx ty i) xs)" for xs
    by (simp add: o_def c)
  define run where "run = (if ty = Movie
      then upto_first (\<lambda>s. 0 < contributed env ctx ty i s) (prioritizedSources sources)
      else upto_total (contributed env ctx ty i) 2 0 (prioritizedSources sources))"
  have r: "(if ty = Movie
      then upto_first (\<lambda>s. 0 < contributed env ctx ty i s) (prioritizedSources (map f sources))
      else upto_total (contributed env ctx ty i) 2 0 (prioritizedSources (map f sources)))
    = map f run"
    unfolding run_def prioritizedSources_map [of f, OF assms(1)] upto_first_map upto_total_map c p
    by simp
  show ?thesis
    unfolding sources_finished_def Let_def r run_def [symmetric] count_after_sum m
      otherSources_map [of f, OF assms(1)] completion_order_map
    by simp
qed

lemma sid_without_failure: "sid (without_failure ctx ty i s) = sid s"
  by (simp add: without_failure_def)

lemma supports_without_failure: "supports ty' (without_failure ctx ty i s) = supports ty' s"
  by (simp add: without_failure_def supports_def)

lemma source_results_without_failure:
  "source_results env ctx ty i (without_failure ctx ty i s) = source_results env ctx ty i s"
  by (auto simp: without_failure_def source_results_def extract_candidate_def
      candidate_meta_def split: sum.splits)

lemma contributed_without_failure:
  "contributed env ctx ty i (without_failure ctx ty i s) = contributed env ctx ty i s"
  by (simp add: contributed_def source_results_without_failure)

lemma sources_handled_without_failure:
  "sources_handled env ctx ty i (map (without_failure ctx ty i) sources)
     = map (without_failure ctx ty i) (sources_handled env ctx ty i sources)"
  by (rule sources_handled_map) (simp_all add: sid_without_failure contributed_without_failure)


lemma sources_finished_without_failure:
  "sources_finished env ctx ty i (map (without_failure ctx ty i) sources)
     = map (without_failure ctx ty i) (sources_finished env ctx ty i sources)"
  by (rule sources_finished_map) (simp_all add: sid_without_failure contributed_without_failure)

lemma allUrlResults_without_failure:
  "allUrlResults (run_sources env ctx (map (without_failure ctx ty i) sources) ty i)
     = allUrlResults (run_sources env ctx sources ty i)"
  unfolding allUrlResults_run_sources sources_finished_without_failure
  by (simp add: o_def source_results_without_failure)

lemma queried_without_failure:
  "queried (run_sources env ctx (map (without_failure ctx ty i) sources) ty i)
     = map (without_failure ctx ty i) (queried (run_sources env ctx sources ty i))"
  unfolding queried_run_sources sources_handled_without_failure
  by (simp add: filter_map o_def supports_without_failure)

lemma not_failed_without_failure:
  "failed_sources ctx ty i (map (without_failure ctx ty i) ss) = []"
  by (induction ss) (simp_all add: failed_sources_def without_failure_def)


lemma resolve_streams:
  "sources \<noteq> [] \<Longrightarrow>
   streams (resolve env ctx sources ty i) =
     errorStreams (run_sources env ctx sources ty i)
     @ map (format_stream env ctx)
         (filter (\<lambda>r. error r = None \<or> showErrors (config ctx))
            (js_sort (compare_results env) (allUrlResults (run_sources env ctx sources ty i))))"
  by (simp add: resolve_def Let_def)

lemma failure_stream_mem:
  "s \<in> set ss \<Longrightarrow> handle s ctx ty i = Inl e \<Longrightarrow>
   source_error_stream env ctx s e \<in> set (failure_streams env ctx ty i ss)"
  by (induction ss) (auto simp: failure_streams_def)

text \<open>
  C7. A source whose call throws is handled like any other: the error counter of the call
  is the number of queried sources whose call threw; when errors are shown, each of them has
  its entry (name the application name, title the link glyph and the source's label
  followed by the error message, external URL the source's base URL) among the error
  entries, which precede every formatted URL Result in the response; and the URL Results
  collected and the sources queried are the same as in the call in which these sources
  return no candidate instead of throwing and the handlers finish in the same order. Among
  themselves the error entries stand in the order in which the failing handlers finish:
  the handlers that finish are the sources queried, in list order when they finish as they
  were started.
\<close>

theorem source_failure_contained:
  assumes "sources \<noteq> []"
  shows "let st = run_sources env ctx sources ty i;
             quiet = run_sources env ctx (map (without_failure ctx ty i) sources) ty i;
             finished = filter (supports ty) (sources_finished env ctx ty i sources)
         in sourceErrorCount st = length (failed_sources ctx ty i (queried st))
          \<and> errorStreams st =
              (if showErrors (config ctx) then failure_streams env ctx ty i finished else [])
          \<and> mset finished = mset (queried st)
          \<and> (completionOrder env = [] \<longrightarrow> errorStreams st =
              (if showErrors (config ctx) then failure_streams env ctx ty i (queried st) else []))
          \<and> (\<forall>s \<in> set (queried st). \<forall>e. handle s ctx ty i = Inl e \<and> showErrors (config ctx)
                \<longrightarrow> source_error_stream env ctx s e \<in> set (errorStreams st))
          \<and> streams (resolve env ctx sources ty i) =
              errorStreams st
              @ map (format_stream env ctx)
                  (filter (\<lambda>r. error r = None \<or> showErrors (config ctx))
                     (js_sort (compare_results env) (allUrlResults st)))
          \<and> allUrlResults quiet = allUrlResults st
          \<and> queried quiet = map (without_failure ctx ty i) (queried st)
          \<and> st_name (source_error_stream env ctx src err) = envGetAppName env
          \<and> st_title (source_error_stream env ctx src err) =
              glyph_link @ ascii '' '' @ slabel src @ newline
                # logErrorAndReturnNiceString env ctx (sid src) err
          \<and> st_externalUrl (source_error_stream env ctx src err) = Some (baseUrl src)"
proof -
  define st where "st = run_sources env ctx sources ty i"
  define finished where
    "finished = filter (supports ty) (sources_finished env ctx ty i sources)"
  have 1: "sourceErrorCount st = length (failed_sources ctx ty i (queried st))"
    unfolding st_def by (rule run_sources_count)
  have 2: "errorStreams st =
      (if showErrors (config ctx) then failure_streams env ctx ty i finished else [])"
    unfolding st_def finished_def by (rule errorStreams_run_sources)
  have ms: "mset finished = mset (queried st)"
    unfolding st_def finished_def by (rule mset_finished_queried)
  have o: "completionOrder env = [] \<longrightarrow> errorStreams st =
      (if showErrors (config ctx) then failure_streams env ctx ty i (queried st) else [])"
  proof
    assume "completionOrder env = []"
    then have "finished = queried st"
      unfolding finished_def st_def queried_run_sources
      by (simp add: sources_finished_in_order)
    then show "errorStreams st =
        (if showErrors (config ctx) then failure_streams env ctx ty i (queried st) else [])"
      using 2 by simp
  qed
  have sf: "set finished = set (queried st)"
    using ms by (rule mset_eq_setD)
  have 3: "\<forall>s \<in> set (queried st). \<forall>e. handle s ctx ty i = Inl e \<and> showErrors (config ctx)
      \<longrightarrow> source_error_stream env ctx s e \<in> set (errorStreams st)"
  proof (intro ballI allI impI)
    fix s e
    assume s: "s \<in> set (queried st)"
      and h: "handle s ctx ty i = Inl e \<and> showErrors (config ctx)"
    from s have "s \<in> set finished"
      unfolding sf .
    then have "source_error_stream env ctx s e \<in> set (failure_streams env ctx ty i finished)"
      using h by (intro failure_stream_mem) simp_all
    then show "source_error_stream env ctx s e \<in> set (errorStreams st)"
      unfolding 2 using h by simp
  qed
  have 4: "streams (resolve env ctx sources ty i) =
      errorStreams st
      @ map (format_stream env ctx)
          (filter (\<lambda>r. error r = None \<or> showErrors (config ctx))
             (js_sort (compare_results env) (allUrlResults st)))"
    unfolding st_def using assms by (rule resolve_streams)
  have 5: "st_name (source_error_stream env ctx src err) = envGetAppName env"
    by (simp add: source_error_stream_def)
  have 6: "st_title (source_error_stream env ctx src err) =
          glyph_link @ ascii '' '' @ slabel src @ newline
            # logErrorAndReturnNiceString env ctx (sid src) err"
    by (simp add: source_error_stream_def)
  have 7: "st_externalUrl (source_error_stream env ctx src err) = Some (baseUrl src)"
    by (simp add: source_error_stream_def)
  have 8: "allUrlResults (run_sources env ctx (map (without_failure ctx ty i) sources) ty i)
      = allUrlResults st"
    unfolding st_def by (rule allUrlResults_without_failure)
  have 9: "queried (run_sources env ctx (map (without_failure ctx ty i) sources) ty i)
      = map (without_failure ctx ty i) (queried st)"
    unfolding st_def by (rule queried_without_failure)
  show ?thesis
    unfolding Let_def st_def [symmetric] finished_def [symmetric]
    using 1 2 ms o 3 4 8 9 5 6 7 by (intro conjI)
qed

theorem source_failure_contained_witness:
  "ex_fallback_sources \<noteq> []
   \<and> map sid (queried (run_sources ex_env ex_ctx ex_fallback_sources Movie ''tt1''))
       = [ascii ''embed69'', ascii ''alpha'', ascii ''gamma'']
   \<and> map sid (failed_sources ex_ctx Movie ''tt1''
        (queried (run_sources ex_env ex_ctx ex_fallback_sources Movie ''tt1''))) = [ascii ''gamma'']
   \<and> sourceErrorCount (run_sources ex_env ex_ctx ex_fallback_sources Movie ''tt1'') = 1
   \<and> map st_externalUrl (streams (resolve ex_env ex_ctx ex_fallback_sources Movie ''tt1''))
       = [Some (ascii ''https://gamma''), None]
   \<and> map st_title (streams (resolve ex_env ex_ctx ex_fallback_sources Movie ''tt1''))
       = [glyph_link @ ascii '' gamma'' @ [newline] @ ascii ''source down'',
          glyph_link @ ascii '' HD from alpha'']
   \<and> completionOrder ex_env = [] \<and> showErrors (config ex_ctx)
   \<and> errorStreams (run_sources ex_env ex_ctx ex_fallback_sources Movie ''tt1'')
       = failure_streams ex_env ex_ctx Movie ''tt1''
           (queried (run_sources ex_env ex_ctx ex_fallback_sources Movie ''tt1''))"
proof -
  have ne: "ex_fallback_sources \<noteq> []"
    by (simp add: ex_fallback_sources_def)
  have c: "sourceErrorCount (run_sources ex_env ex_ctx ex_fallback_sources Movie ''tt1'')
      = length (failed_sources ex_ctx Movie ''tt1''
          (queried (run_sources ex_env ex_ctx ex_fallback_sources Movie ''tt1'')))"
    using source_failure_contained [OF ne, where env = ex_env and ctx = ex_ctx and ty = Movie
        and i = "''tt1''"]
    unfolding Let_def by (rule conjunct1)
  have f: "map sid (failed_sources ex_ctx Movie ''tt1''
        (queried (run_sources ex_env ex_ctx ex_fallback_sources Movie ''tt1''))) = [ascii ''gamma'']"
    by code_simp
  have "length (failed_sources ex_ctx Movie ''tt1''
        (queried (run_sources ex_env ex_ctx ex_fallback_sources Movie ''tt1''))) = 1"
    using arg_cong [OF f, of length] by simp
  then have n: "sourceErrorCount (run_sources ex_env ex_ctx ex_fallback_sources Movie ''tt1'') = 1"
    unfolding c .
  have q: "map sid (queried (run_sources ex_env ex_ctx ex_fallback_sources Movie ''tt1''))
       = [ascii ''embed69'', ascii ''alpha'', ascii ''gamma'']"
    by code_simp
  have x: "map st_externalUrl (streams (resolve ex_env ex_ctx ex_fallback_sources Movie ''tt1''))
       = [Some (ascii ''https://gamma''), None]"
    by code_simp
  have t: "map st_title (streams (resolve ex_env ex_ctx ex_fallback_sources Movie ''tt1''))
       = [glyph_link @ ascii '' gamma'' @ [newline] @ ascii ''source down'',
          glyph_link @ ascii '' HD from alpha'']"
    by code_simp
  have g: "completionOrder ex_env = []"
    by (simp add: ex_env_def)
  have s: "showErrors (config ex_ctx)"
    by (simp add: ex_ctx_def showErrors_def)
  note o = source_failure_contained [OF ne, where env = ex_env and ctx = ex_ctx and ty = Movie
      and i = "''tt1''", unfolded Let_def, THEN conjunct2, THEN conjunct2, THEN conjunct2,
      THEN conjunct1, THEN mp, OF g]
  have e: "errorStreams (run_sources ex_env ex_ctx ex_fallback_sources Movie ''tt1'')
       = failure_streams ex_env ex_ctx Movie ''tt1''
           (queried (run_sources ex_env ex_ctx ex_fallback_sources Movie ''tt1''))"
    using o s by simp
  show ?thesis
    using ne q f n x t g s e by (intro conjI)
qed

section \<open>Two calls with the same inputs\<close>

text \<open>
  Only the scheduling reads the order of finishing; every other part of the resolver is the
  same under any picks.
\<close>

lemma extract_candidate_sched:
  "extract_candidate (env \<lparr> completionOrder := s \<rparr>) = extract_candidate env"
  by (intro ext) (simp add: extract_candidate_def)

lemma source_error_stream_sched:
  "source_error_stream (env \<lparr> completionOrder := s \<rparr>) = source_error_stream env"
  by (intro ext) (simp add: source_error_stream_def)

lemma handleSource_sched:
  "handleSource (env \<lparr> completionOrder := s \<rparr>) = handleSource env"
  by (intro ext)
    (simp add: handleSource_def extract_candidate_sched source_error_stream_sched
      split: sum.splits)

lemma phase1_sched:
  "phase1 (env \<lparr> completionOrder := s \<rparr>) ctx ty i st ss = phase1 env ctx ty i st ss"
  by (induction ss arbitrary: st) (auto simp: handleSource_sched Let_def)






























section \<open>The file name of a stream entry\<close>

lemma first_line_join: "first_line (join_lines (l # ls)) = first_line l"
proof (cases ls)
  case Nil
  then show ?thesis by simp
next
  case (Cons a as)
  show ?thesis
    unfolding Cons by (simp add: first_line_def takeWhile_tail)
qed

lemma first_line_prefix:
  "newline \<notin> set p \<Longrightarrow> first_line (p @ s) = p @ first_line s"
  unfolding first_line_def by (induction p) auto

lemma takeWhile_first_line:
  "takeWhile (\<lambda>x. x \<noteq> lparen) (first_line s)
     = takeWhile (\<lambda>c. c \<noteq> newline \<and> c \<noteq> lparen) s"
  unfolding first_line_def by (induction s) auto

lemma strip_prefix_append: "strip_prefix p (p @ s) = Some s"
  by (induction p) simp_all

lemma match_source_name_at_start:
  assumes "takeWhile (\<lambda>x. x \<noteq> lparen) rest \<noteq> []"
  shows "match_source_name (glyph_link @ ascii '' '' @ rest)
     = Some (takeWhile (\<lambda>x. x \<noteq> lparen) rest)"
proof -
  obtain c cs where e: "glyph_link @ ascii '' '' @ rest = c # cs"
    by (simp add: glyph_link_def)
  have "strip_prefix (glyph_link @ ascii '' '') (c # cs) = Some rest"
    using strip_prefix_append [of "glyph_link @ ascii '' ''" rest] unfolding e [symmetric] by simp
  then show ?thesis
    unfolding e using assms by simp
qed

lemma match_source_name_no_glyph: "0xD83D \<notin> set s \<Longrightarrow> match_source_name s = None"
  by (induction s) (simp_all add: glyph_link_def)

lemma glyph_link_no_newline: "newline \<notin> set (glyph_link @ ascii '' '')"
  by (simp add: glyph_link_def newline_def ascii_def)

text \<open>The first line of the title: the link line, unless the meta has a title.\<close>

lemma first_line_title_plain:
  assumes "meta_get title r = None \<or> meta_get title r = Some []"
  shows "first_line (buildTitle env ctx r) =
     glyph_link @ ascii '' ''
       @ first_line (or_string (Some (label r)) (ascii ''Stream'') @ ascii '' from ''
           @ or_string (meta_get sourceLabel r) (ascii ''Unknown''))"
proof -
  define x where "x = or_string (Some (label r)) (ascii ''Stream'') @ ascii '' from ''
                   @ or_string (meta_get sourceLabel r) (ascii ''Unknown'')"
  obtain ls where b: "buildTitle env ctx r = join_lines ((glyph_link @ ascii '' '' @ x) # ls)"
    using assms unfolding buildTitle_def x_def by auto
  show ?thesis
    unfolding b first_line_join x_def [symmetric]
    using first_line_prefix [OF glyph_link_no_newline, of x] by simp
qed

lemma first_line_title_titled:
  assumes "meta_get title r = Some t" and "t \<noteq> []"
  shows "first_line (buildTitle env ctx r) = first_line t"
proof -
  obtain ls where b: "buildTitle env ctx r = join_lines (t # ls)"
    using assms unfolding buildTitle_def by (auto simp del: join_lines.simps)
  show ?thesis
    unfolding b by (rule first_line_join)
qed

lemma filename_format_stream:
  "filename (the (st_behaviorHints (format_stream env ctx r))) = build_filename env ctx r"
  by (simp add: format_stream_def Let_def)

text \<open>No code unit that \<^verbatim>\<open>trim\<close> strips is a letter or a digit.\<close>

lemma alnum_range: "is_alnum c \<Longrightarrow> 48 \<le> c \<and> c \<le> 122"
proof -
  assume "is_alnum c"
  then consider "48 \<le> c \<and> c \<le> 57" | "65 \<le> c \<and> c \<le> 90" | "97 \<le> c \<and> c \<le> 122"
    unfolding is_alnum_def by blast
  then show ?thesis
  proof cases
    case 1
    moreover have "(57::16 word) \<le> 122" by simp
    ultimately show ?thesis by (meson order_trans)
  next
    case 2
    moreover have "(48::16 word) \<le> 65" "(90::16 word) \<le> 122" by simp_all
    ultimately show ?thesis by (meson order_trans)
  next
    case 3
    moreover have "(48::16 word) \<le> 97" by simp
    ultimately show ?thesis by (meson order_trans)
  qed
qed

lemma space_range: "is_space c \<Longrightarrow> c \<le> 32 \<or> 160 \<le> c"
proof -
  assume "is_space c"
  then consider "9 \<le> c \<and> c \<le> 13" | "c = 32" | "c = 160" | "c = 5760"
    | "8192 \<le> c \<and> c \<le> 8202" | "c = 8232" | "c = 8233" | "c = 8239" | "c = 8287"
    | "c = 12288" | "c = 65279"
    unfolding is_space_def by blast
  then show ?thesis
  proof cases
    case 1
    moreover have "(13::16 word) \<le> 32" by simp
    ultimately show ?thesis by (meson order_trans)
  next
    case 5
    moreover have "(160::16 word) \<le> 8192" by simp
    ultimately show ?thesis by (meson order_trans)
  qed simp_all
qed

lemma space_not_alnum: "is_space c \<Longrightarrow> \<not> is_alnum c"
proof
  assume s: "is_space c" and a: "is_alnum c"
  from a have r: "48 \<le> c" "c \<le> 122"
    using alnum_range by simp_all
  from s consider "c \<le> 32" | "160 \<le> c"
    using space_range by blast
  then show False
  proof cases
    case 1
    with r(1) have "(48::16 word) \<le> 32" by (rule order_trans)
    then show False by simp
  next
    case 2
    from this r(2) have "(160::16 word) \<le> 122" by (rule order_trans)
    then show False by simp
  qed
qed

lemma filter_dropWhile: "(\<And>c. Q c \<Longrightarrow> \<not> P c) \<Longrightarrow> filter P (dropWhile Q s) = filter P s"
  by (induction s) auto

lemma filter_alnum_trim: "filter is_alnum (trim s) = filter is_alnum s"
proof -
  have "filter is_alnum (rev (dropWhile is_space (rev (dropWhile is_space s))))
      = rev (filter is_alnum (dropWhile is_space (rev (dropWhile is_space s))))"
    by (simp add: rev_filter)
  also have "\<dots> = rev (filter is_alnum (rev (dropWhile is_space s)))"
    using filter_dropWhile [of is_space is_alnum] space_not_alnum by simp
  also have "\<dots> = filter is_alnum (dropWhile is_space s)"
    by (simp add: rev_filter)
  also have "\<dots> = filter is_alnum s"
    using filter_dropWhile [of is_space is_alnum] space_not_alnum by simp
  finally show ?thesis
    unfolding trim_def .
qed

lemma filter_alnum_from: "filter is_alnum (ascii '' from '') = ascii ''from''"
  by code_simp

text \<open>
  C8 fails on the code. The file name has the shape the claim gives, but its middle part is
  not the name of the source. The title's link line reads \<^verbatim>\<open>LINK <label> from
  <sourceLabel>\<close>, and the parse takes everything after the glyph and the blank up to the
  first opening parenthesis or line break: so the middle part is the letters and digits of
  the result's label, followed by \<^verbatim>\<open>from\<close> and by the letters and digits of the source
  label when no parenthesis or line break comes first. When the result's meta has a title,
  that title is the first line, and the middle part is \<^verbatim>\<open>Unknown\<close> whatever the source
  (unless the title itself holds the glyph).
\<close>

theorem filename_carries_label:
  "let lbl = or_string (Some (label r)) (ascii ''Stream'');
       src = or_string (meta_get sourceLabel r) (ascii ''Unknown'');
       link_text = lbl @ ascii '' from '' @ src;
       cut = trim (takeWhile (\<lambda>c. c \<noteq> newline \<and> c \<noteq> lparen) link_text);
       shape = (\<lambda>middle. or_string (mapHeightToQualityLabel (meta_get height r)) (ascii ''Unknown'')
                 @ ascii ''.'' @ middle @ ascii ''.''
                 @ toUpperCase env (take 2 (first_country_code r))
                 @ (if size_label env r = [] then [] else ascii ''.'' @ size_label env r)
                 @ ascii ''.mkv'');
       untitled = (meta_get title r = None \<or> meta_get title r = Some []);
       name = filename (the (st_behaviorHints (format_stream env ctx r)))
   in (untitled \<and> takeWhile (\<lambda>c. c \<noteq> newline \<and> c \<noteq> lparen) link_text \<noteq> []
         \<longrightarrow> name = shape (filter is_alnum (if cut = [] then ascii ''Unknown'' else cut)))
    \<and> (untitled \<and> newline \<notin> set link_text \<and> lparen \<notin> set link_text
         \<longrightarrow> name = shape (filter is_alnum lbl @ ascii ''from'' @ filter is_alnum src))
    \<and> (\<forall>t. meta_get title r = Some t \<and> t \<noteq> []
              \<and> 0xD83D \<notin> set (takeWhile (\<lambda>c. c \<noteq> newline) t)
         \<longrightarrow> name = shape (ascii ''Unknown''))"
proof -
  define lbl where "lbl = or_string (Some (label r)) (ascii ''Stream'')"
  define src where "src = or_string (meta_get sourceLabel r) (ascii ''Unknown'')"
  define link_text where "link_text = lbl @ ascii '' from '' @ src"
  define cut where "cut = trim (takeWhile (\<lambda>c. c \<noteq> newline \<and> c \<noteq> lparen) link_text)"
  define shape where "shape = (\<lambda>middle.
      or_string (mapHeightToQualityLabel (meta_get height r)) (ascii ''Unknown'')
        @ ascii ''.'' @ middle @ ascii ''.''
        @ toUpperCase env (take 2 (first_country_code r))
        @ (if size_label env r = [] then [] else ascii ''.'' @ size_label env r)
        @ ascii ''.mkv'')"
  define untitled where "untitled = (meta_get title r = None \<or> meta_get title r = Some [])"
  define name where "name = filename (the (st_behaviorHints (format_stream env ctx r)))"
  have n: "name = shape (filter is_alnum (parse_source_name (buildTitle env ctx r)))"
    unfolding name_def filename_format_stream build_filename_def shape_def Let_def by simp
  have a: "untitled \<and> takeWhile (\<lambda>c. c \<noteq> newline \<and> c \<noteq> lparen) link_text \<noteq> []
      \<longrightarrow> name = shape (filter is_alnum (if cut = [] then ascii ''Unknown'' else cut))"
  proof
    assume h: "untitled \<and> takeWhile (\<lambda>c. c \<noteq> newline \<and> c \<noteq> lparen) link_text \<noteq> []"
    then have fl: "first_line (buildTitle env ctx r)
        = glyph_link @ ascii '' '' @ first_line link_text"
      unfolding untitled_def link_text_def lbl_def src_def
      using first_line_title_plain [of r env ctx] by simp
    have "takeWhile (\<lambda>x. x \<noteq> lparen) (first_line link_text) \<noteq> []"
      unfolding takeWhile_first_line using h by simp
    then have "match_source_name (first_line (buildTitle env ctx r))
        = Some (takeWhile (\<lambda>c. c \<noteq> newline \<and> c \<noteq> lparen) link_text)"
      unfolding fl using match_source_name_at_start [of "first_line link_text"]
      by (simp add: takeWhile_first_line)
    then have "parse_source_name (buildTitle env ctx r)
        = (if cut = [] then ascii ''Unknown'' else cut)"
      unfolding parse_source_name_def cut_def by simp
    then show "name = shape (filter is_alnum (if cut = [] then ascii ''Unknown'' else cut))"
      unfolding n by simp
  qed
  have b: "untitled \<and> newline \<notin> set link_text \<and> lparen \<notin> set link_text
      \<longrightarrow> name = shape (filter is_alnum lbl @ ascii ''from'' @ filter is_alnum src)"
  proof
    assume h: "untitled \<and> newline \<notin> set link_text \<and> lparen \<notin> set link_text"
    then have tw: "takeWhile (\<lambda>c. c \<noteq> newline \<and> c \<noteq> lparen) link_text = link_text"
      by (intro takeWhile_eq_all_conv [THEN iffD2]) auto
    have ne: "link_text \<noteq> []"
      unfolding link_text_def by (simp add: ascii_def)
    have al: "filter is_alnum link_text = filter is_alnum lbl @ ascii ''from'' @ filter is_alnum src"
      unfolding link_text_def by (simp add: filter_alnum_from)
    have "filter is_alnum cut = filter is_alnum link_text"
      unfolding cut_def tw by (rule filter_alnum_trim)
    moreover have "cut \<noteq> []"
    proof
      assume "cut = []"
      then have "filter is_alnum link_text = []"
        using \<open>filter is_alnum cut = filter is_alnum link_text\<close> by simp
      then show False
        unfolding al by (simp add: ascii_def)
    qed
    ultimately have "filter is_alnum (if cut = [] then ascii ''Unknown'' else cut)
        = filter is_alnum lbl @ ascii ''from'' @ filter is_alnum src"
      using al by simp
    then show "name = shape (filter is_alnum lbl @ ascii ''from'' @ filter is_alnum src)"
      using a h tw ne by simp
  qed
  have c: "\<forall>t. meta_get title r = Some t \<and> t \<noteq> []
        \<and> 0xD83D \<notin> set (takeWhile (\<lambda>c. c \<noteq> newline) t)
      \<longrightarrow> name = shape (ascii ''Unknown'')"
  proof (intro allI impI)
    fix t
    assume h: "meta_get title r = Some t \<and> t \<noteq> []
        \<and> 0xD83D \<notin> set (takeWhile (\<lambda>c. c \<noteq> newline) t)"
    then have fl: "first_line (buildTitle env ctx r) = first_line t"
      using first_line_title_titled [of r t env ctx] by simp
    have "match_source_name (first_line t) = None"
      using h unfolding first_line_def by (intro match_source_name_no_glyph) simp
    then have "parse_source_name (buildTitle env ctx r) = ascii ''Unknown''"
      unfolding parse_source_name_def fl by simp
    moreover have "filter is_alnum (ascii ''Unknown'') = ascii ''Unknown''"
      by code_simp
    ultimately show "name = shape (ascii ''Unknown'')"
      unfolding n by simp
  qed
  show ?thesis
    unfolding Let_def lbl_def [symmetric] src_def [symmetric] link_text_def [symmetric]
      cut_def [symmetric] untitled_def [symmetric] name_def [symmetric]
    using a b c unfolding shape_def by (intro conjI)
qed

theorem filename_carries_label_witness:
  "label ex_plain_result = ascii ''HD''
   \<and> meta_get sourceLabel ex_plain_result = Some (ascii ''Embed69'')
   \<and> filename (the (st_behaviorHints (format_stream ex_env ex_ctx ex_plain_result)))
       = ascii ''1080p.HDfromEmbed69.ES.mkv''
   \<and> label ex_result = ascii ''Stream HD (es)''
   \<and> filename (the (st_behaviorHints (format_stream ex_env ex_ctx ex_result)))
       = ascii ''1080p.StreamHD.ES.[1 GB].mkv''
   \<and> meta_get title ex_titled_result = Some (ascii ''My Title'')
   \<and> meta_get sourceLabel ex_titled_result = Some (ascii ''Embed69'')
   \<and> filename (the (st_behaviorHints (format_stream ex_env ex_ctx ex_titled_result)))
       = ascii ''1080p.Unknown.ES.mkv''"
proof -
  have l1: "label ex_plain_result = ascii ''HD''"
    by (simp add: ex_plain_result_def)
  have s1: "meta_get sourceLabel ex_plain_result = Some (ascii ''Embed69'')"
    by (simp add: ex_plain_result_def meta_get_def)
  have l2: "label ex_result = ascii ''Stream HD (es)''"
    by (simp add: ex_result_def)
  have t3: "meta_get title ex_titled_result = Some (ascii ''My Title'')"
    by (simp add: ex_titled_result_def meta_get_def)
  have s3: "meta_get sourceLabel ex_titled_result = Some (ascii ''Embed69'')"
    by (simp add: ex_titled_result_def meta_get_def)
  have a1: "(meta_get title ex_plain_result = None \<or> meta_get title ex_plain_result = Some [])
      \<and> newline \<notin> set (or_string (Some (label ex_plain_result)) (ascii ''Stream'')
            @ ascii '' from '' @ or_string (meta_get sourceLabel ex_plain_result) (ascii ''Unknown''))
      \<and> lparen \<notin> set (or_string (Some (label ex_plain_result)) (ascii ''Stream'')
            @ ascii '' from '' @ or_string (meta_get sourceLabel ex_plain_result) (ascii ''Unknown''))"
    by code_simp
  note f1 = filename_carries_label [where r = ex_plain_result and env = ex_env and ctx = ex_ctx,
      unfolded Let_def, THEN conjunct2, THEN conjunct1, THEN mp, OF a1]
  have 1: "filename (the (st_behaviorHints (format_stream ex_env ex_ctx ex_plain_result)))
       = ascii ''1080p.HDfromEmbed69.ES.mkv''"
    unfolding f1 by code_simp
  have a2: "(meta_get title ex_result = None \<or> meta_get title ex_result = Some [])
      \<and> takeWhile (\<lambda>c. c \<noteq> newline \<and> c \<noteq> lparen)
          (or_string (Some (label ex_result)) (ascii ''Stream'')
            @ ascii '' from '' @ or_string (meta_get sourceLabel ex_result) (ascii ''Unknown'')) \<noteq> []"
    by code_simp
  note f2 = filename_carries_label [where r = ex_result and env = ex_env and ctx = ex_ctx,
      unfolded Let_def, THEN conjunct1, THEN mp, OF a2]
  have 2: "filename (the (st_behaviorHints (format_stream ex_env ex_ctx ex_result)))
       = ascii ''1080p.StreamHD.ES.[1 GB].mkv''"
    unfolding f2 by code_simp
  have a3: "meta_get title ex_titled_result = Some (ascii ''My Title'') \<and> ascii ''My Title'' \<noteq> []
      \<and> 0xD83D \<notin> set (takeWhile (\<lambda>c. c \<noteq> newline) (ascii ''My Title''))"
    by code_simp
  note f3 = filename_carries_label [where r = ex_titled_result and env = ex_env and ctx = ex_ctx,
      unfolded Let_def, THEN conjunct2, THEN conjunct2, THEN spec, THEN mp, OF a3]
  have 3: "filename (the (st_behaviorHints (format_stream ex_env ex_ctx ex_titled_result)))
       = ascii ''1080p.Unknown.ES.mkv''"
    unfolding f3 by code_simp
  show ?thesis
    using l1 s1 1 l2 2 t3 s3 3 by (intro conjI)
qed

section \<open>The comparison function of the final sort\<close>

lemma compare_error_left: "error x \<noteq> None \<Longrightarrow> compare_results env x y = 1"
  by (simp add: compare_results_def)

lemma compare_error_right:
  "error x = None \<Longrightarrow> error y \<noteq> None \<Longrightarrow> compare_results env x y = -1"
  by (simp add: compare_results_def)

lemma insert_error_at_end:
  "error x \<noteq> None \<Longrightarrow> insert_sorted (compare_results env) x ys = ys @ [x]"
  by (induction ys) (simp_all add: compare_error_left)

lemma errors_last_snoc_error:
  "errors_last ys \<Longrightarrow> error x \<noteq> None \<Longrightarrow> errors_last (ys @ [x])"
  by (induction ys) (auto simp: list_all_iff)

lemma errors_last_all_errors:
  "list_all (\<lambda>q. error q \<noteq> None) ys \<Longrightarrow> errors_last ys"
  by (induction ys) auto

lemma insert_ok_errors_last:
  "error x = None \<Longrightarrow> errors_last ys \<Longrightarrow> errors_last (insert_sorted (compare_results env) x ys)"
proof (induction ys)
  case Nil
  then show ?case by simp
next
  case (Cons y ys)
  show ?case
  proof (cases "error y = None")
    case True
    then show ?thesis using Cons by auto
  next
    case False
    then have "compare_results env x y = -1"
      using Cons.prems(1) by (simp add: compare_error_right)
    then show ?thesis using Cons.prems False by auto
  qed
qed

lemma insert_errors_last:
  "errors_last ys \<Longrightarrow> errors_last (insert_sorted (compare_results env) x ys)"
  by (cases "error x = None")
    (simp_all add: insert_ok_errors_last insert_error_at_end errors_last_snoc_error)

lemma foldl_insert_errors_last:
  "errors_last acc \<Longrightarrow>
   errors_last (foldl (\<lambda>acc x. insert_sorted (compare_results env) x acc) acc rs)"
  by (induction rs arbitrary: acc) (simp_all add: insert_errors_last)

lemma js_sort_errors_last: "errors_last (js_sort (compare_results env) rs)"
  unfolding js_sort_def by (rule foldl_insert_errors_last) simp

text \<open>Where the keys do decide: a playable result against an external one, and two playable results.\<close>

lemma compare_external_after:
  assumes "error a = None" and "error b = None" and "isExternal a" and "\<not> isExternal b"
  shows "compare_results env a b = 1 \<and> compare_results env b a = -1"
  using assms by (simp add: compare_results_def)

lemma compare_playable:
  assumes "error a = None" and "error b = None" and "\<not> isExternal a" and "\<not> isExternal b"
  shows "compare_results env a b =
     (if height_or_0 a \<noteq> height_or_0 b then height_or_0 b - height_or_0 a
      else if bytes_or_0 a \<noteq> bytes_or_0 b then bytes_or_0 b - bytes_or_0 a
      else localeCompare env (label a) (label b))"
  using assms by (simp add: compare_results_def Let_def)

text \<open>
  C4 fails on the code. For two results that both carry an error marker, or that are both
  external and without error marker, the comparison function answers 1 whichever comes
  first: each is ranked after the other, whatever their heights, sizes and labels, and the
  sort leaves the pair in the order it arrived in.
\<close>

theorem comparator_inconsistent:
  assumes "(error a \<noteq> None \<and> error b \<noteq> None)
         \<or> (error a = None \<and> error b = None \<and> isExternal a \<and> isExternal b)"
  shows "compare_results env a b = 1 \<and> compare_results env b a = 1
       \<and> js_sort (compare_results env) [a, b] = [a, b]
       \<and> js_sort (compare_results env) [b, a] = [b, a]"
  using assms by (auto simp: compare_results_def js_sort_def)

theorem comparator_inconsistent_witness:
  "error (ex_external 720) = None \<and> error (ex_external 1080) = None
   \<and> isExternal (ex_external 720) \<and> isExternal (ex_external 1080)
   \<and> height_or_0 (ex_external 720) < height_or_0 (ex_external 1080)
   \<and> compare_results ex_env (ex_external 720) (ex_external 1080) = 1
   \<and> compare_results ex_env (ex_external 1080) (ex_external 720) = 1
   \<and> map height_or_0 (js_sort (compare_results ex_env) [ex_external 720, ex_external 1080])
       = [720, 1080]
   \<and> compare_results ex_env (ex_broken 720) (ex_broken 1080) = 1
   \<and> compare_results ex_env (ex_broken 1080) (ex_broken 720) = 1"
proof -
  have h: "error (ex_external 720) = None \<and> error (ex_external 1080) = None
      \<and> isExternal (ex_external 720) \<and> isExternal (ex_external 1080)"
    by (simp add: ex_external_def)
  have g: "error (ex_broken 720) \<noteq> None \<and> error (ex_broken 1080) \<noteq> None"
    by (simp add: ex_broken_def)
  have hh: "height_or_0 (ex_external 720) < height_or_0 (ex_external 1080)"
    by (simp add: ex_external_def height_or_0_def meta_get_def)
  have m: "map height_or_0 [ex_external 720, ex_external 1080] = [720, 1080]"
    by (simp add: ex_external_def height_or_0_def meta_get_def)
  note 1 = comparator_inconsistent [of "ex_external 720" "ex_external 1080" ex_env]
  note 2 = comparator_inconsistent [of "ex_broken 720" "ex_broken 1080" ex_env]
  show ?thesis
    using h hh 1 2 g m by simp
qed

end
